theory Spec2Isabelle
  imports Main
begin

section \<open>JavaScript values, exceptions and plain objects\<close>

text \<open>
  The adapter of \<^verbatim>\<open>packages/zod/src/index.ts\<close> is TypeScript running as JavaScript.
  Values that cross the adapter are modelled by a datatype of JSON-like values; an
  exception is a value of \<open>exn\<close>, and a function that may throw returns \<open>exn + 'a\<close>
  with \<open>Inl\<close> for the throw.
\<close>

datatype exn = TypeError | ZodError | Thrown string

datatype jsvalue =
    JUndefined
  | JNull
  | JBool bool
  | JNum int
  | JStr string
  | JArr "jsvalue list"
  | JObj "(string \<times> jsvalue) list"

text \<open>
  A plain object (\<^verbatim>\<open>{}\<close>, an object literal, the result of \<^verbatim>\<open>Object.fromEntries\<close>) is
  the list of its own string-keyed properties in creation order. Its prototype is
  \<^verbatim>\<open>Object.prototype\<close>, whose members answer a property read when the object has no
  own property of that name. Every one of these members is truthy (a function, or
  \<^verbatim>\<open>Object.prototype\<close> itself for \<^verbatim>\<open>__proto__\<close>) and has none of the properties the
  adapter reads from it.
\<close>

definition Object_prototype_keys :: "string list" where
  "Object_prototype_keys =
     [''constructor'', ''__defineGetter__'', ''__defineSetter__'', ''hasOwnProperty'',
      ''__lookupGetter__'', ''__lookupSetter__'', ''isPrototypeOf'',
      ''propertyIsEnumerable'', ''toString'', ''valueOf'', ''__proto__'',
      ''toLocaleString'']"

datatype 'a property = Own 'a | Inherited | Absent

text \<open>The read \<^verbatim>\<open>obj[k]\<close>.\<close>

definition get_property :: "(string \<times> 'a) list \<Rightarrow> string \<Rightarrow> 'a property" where
  "get_property obj k =
     (case map_of obj k of
        Some v \<Rightarrow> Own v
      | None \<Rightarrow> if k \<in> set Object_prototype_keys then Inherited else Absent)"

text \<open>
  The write \<^verbatim>\<open>obj[k] = v\<close> of an own data property: an existing property keeps its
  place, a new one is created last.
\<close>

fun set_property :: "(string \<times> 'a) list \<Rightarrow> string \<Rightarrow> 'a \<Rightarrow> (string \<times> 'a) list" where
  "set_property [] k v = [(k, v)]"
| "set_property ((k', v') # ps) k v =
     (if k' = k then (k, v) # ps else (k', v') # set_property ps k v)"

text \<open>
  Property enumeration (\<^verbatim>\<open>Object.keys\<close>, \<^verbatim>\<open>Object.values\<close>, \<^verbatim>\<open>Object.entries\<close>) visits
  the keys that are array indices first, in ascending numeric order, and then the other
  string keys in creation order. An array index is the canonical decimal numeral of a
  number below \<open>2^32 - 1\<close>.
\<close>

definition is_digit :: "char \<Rightarrow> bool" where
  "is_digit c = (c \<in> set ''0123456789'')"

definition digit_value :: "char \<Rightarrow> nat" where
  "digit_value c = of_char c - 48"

definition decimal_value :: "string \<Rightarrow> nat" where
  "decimal_value s = foldl (\<lambda>a c. 10 * a + digit_value c) 0 s"

definition array_index :: "string \<Rightarrow> nat option" where
  "array_index s =
     (if s \<noteq> [] \<and> list_all is_digit s \<and> (s = ''0'' \<or> hd s \<noteq> CHR ''0'')
         \<and> decimal_value s < 4294967295
      then Some (decimal_value s) else None)"

definition is_array_index :: "string \<Rightarrow> bool" where
  "is_array_index s = (array_index s \<noteq> None)"

definition Object_entries :: "(string \<times> 'a) list \<Rightarrow> (string \<times> 'a) list" where
  "Object_entries obj =
     sort_key (\<lambda>p. decimal_value (fst p)) (filter (\<lambda>p. is_array_index (fst p)) obj)
     @ filter (\<lambda>p. \<not> is_array_index (fst p)) obj"

definition Object_values :: "(string \<times> 'a) list \<Rightarrow> 'a list" where
  "Object_values obj = map snd (Object_entries obj)"

definition Object_fromEntries :: "(string \<times> 'a) list \<Rightarrow> (string \<times> 'a) list" where
  "Object_fromEntries es = foldl (\<lambda>obj e. set_property obj (fst e) (snd e)) [] es"

section \<open>Validation issues\<close>

text \<open>
  A \<^verbatim>\<open>ZodIssue\<close> has a code, a path of property keys and array indices, and a message.
  The last component is the \<^verbatim>\<open>unionErrors\<close> property: \<open>None\<close> when the issue has no
  such key or its value is falsy, and otherwise one issue list (\<^verbatim>\<open>ue.issues\<close>) for each
  branch of the union. These four are all that the adapter reads of an issue. A union
  issue of zod 3 has the property \<^verbatim>\<open>unionErrors\<close>. A union issue of zod 4 has not: it
  keeps the issue lists of its branches in a property \<^verbatim>\<open>errors\<close>, which the adapter does
  not read and the model does not hold.
\<close>

datatype segment = Key string | Index nat

datatype issue = Issue string "segment list" string "issue list list option"

fun issue_code :: "issue \<Rightarrow> string" where
  "issue_code (Issue c p m u) = c"

fun issue_path :: "issue \<Rightarrow> segment list" where
  "issue_path (Issue c p m u) = p"

fun issue_message :: "issue \<Rightarrow> string" where
  "issue_message (Issue c p m u) = m"

fun unionErrors :: "issue \<Rightarrow> issue list list option" where
  "unionErrors (Issue c p m u) = u"

text \<open>\<^verbatim>\<open>String(n)\<close> for an array index \<open>n\<close>: its decimal numeral.\<close>

definition digit_char :: "nat \<Rightarrow> char" where
  "digit_char d = ''0123456789'' ! d"

function string_of_nat :: "nat \<Rightarrow> string" where
  "string_of_nat n =
     (if n < 10 then [digit_char n] else string_of_nat (n div 10) @ [digit_char (n mod 10)])"
  by pat_completeness auto
termination
  by (relation "measure id") auto

declare string_of_nat.simps [simp del]

fun segment_string :: "segment \<Rightarrow> string" where
  "segment_string (Key s) = s"
| "segment_string (Index n) = string_of_nat n"

text \<open>\<^verbatim>\<open>issue.path.join('.')\<close>\<close>

fun join_dot :: "string list \<Rightarrow> string" where
  "join_dot [] = []"
| "join_dot [s] = s"
| "join_dot (s # t # ss) = s @ ''.'' @ join_dot (t # ss)"

definition joined_path :: "issue \<Rightarrow> string" where
  "joined_path i = join_dot (map segment_string (issue_path i))"

section \<open>The error map and \<^verbatim>\<open>processIssues\<close>\<close>

record TypedSchemaError =
  errors :: "string list"
  path :: string

type_synonym error_map = "(string \<times> TypedSchemaError) list"

text \<open>
  Lines 105 to 109 of the source, for a normalised path \<open>p\<close> and a message \<open>m\<close>:
  \<^verbatim>\<open>if (!errors[p]) errors[p] = { errors: [], path: p }; errors[p].errors.push(m)\<close>.
  When \<open>p\<close> names a member of \<^verbatim>\<open>Object.prototype\<close> and the map has no own entry for it,
  \<^verbatim>\<open>errors[p]\<close> is that (truthy) member, no entry is created, its \<^verbatim>\<open>errors\<close> property is
  \<^verbatim>\<open>undefined\<close>, and the call of \<^verbatim>\<open>push\<close> on it throws a \<^verbatim>\<open>TypeError\<close>.
\<close>

definition push_message :: "string \<Rightarrow> string \<Rightarrow> error_map \<Rightarrow> exn + error_map" where
  "push_message p m errs =
     (case get_property errs p of
        Own e \<Rightarrow> Inr (set_property errs p (e\<lparr>errors := errors e @ [m]\<rparr>))
      | Inherited \<Rightarrow> Inl TypeError
      | Absent \<Rightarrow> Inr (set_property errs p \<lparr>errors = [m], path = p\<rparr>))"

lemma size_list_concat_le:
  "size_list f (concat xss) \<le> size_list (size_list f) xss"
  by (induction xss) auto

text \<open>
  \<^verbatim>\<open>processIssues(issues, errors)\<close>. The first argument is \<^verbatim>\<open>normalizeFormPath\<close>, which the
  source imports from \<^verbatim>\<open>../../shared\<close>. The \<^verbatim>\<open>forEach\<close> is the recursion over the list;
  the \<^verbatim>\<open>return\<close> inside the callback ends the work on one issue only.
\<close>

function processIssues ::
  "(string \<Rightarrow> string) \<Rightarrow> issue list \<Rightarrow> error_map \<Rightarrow> exn + error_map" where
  "processIssues normalizeFormPath [] errs = Inr errs"
| "processIssues normalizeFormPath (Issue code p m u # rest) errs =
     (let pth = normalizeFormPath (join_dot (map segment_string p)) in
      if code = ''invalid_union'' then
        (case (case u of
                 None \<Rightarrow> Inr errs
               | Some branches \<Rightarrow> processIssues normalizeFormPath (concat branches) errs) of
           Inl e \<Rightarrow> Inl e
         | Inr errs1 \<Rightarrow>
             if pth = [] then processIssues normalizeFormPath rest errs1
             else (case push_message pth m errs1 of
                     Inl e \<Rightarrow> Inl e
                   | Inr errs2 \<Rightarrow> processIssues normalizeFormPath rest errs2))
      else (case push_message pth m errs of
              Inl e \<Rightarrow> Inl e
            | Inr errs2 \<Rightarrow> processIssues normalizeFormPath rest errs2))"
  by pat_completeness auto
termination
proof (relation "measure (\<lambda>(nf, is, errs). size_list size is)")
  show "wf (measure (\<lambda>(nf, is, errs). size_list size is))"
    by simp
next
  fix nf :: "string \<Rightarrow> string" and code p m u rest
  fix errs :: error_map and branches :: "issue list list"
  assume "u = Some branches"
  then show "((nf, concat branches, errs), (nf, Issue code p m u # rest, errs))
      \<in> measure (\<lambda>(nf, is, errs). size_list size is)"
    using size_list_concat_le [of size branches] by simp
qed simp_all

section \<open>The wrapped schema and \<^verbatim>\<open>parse\<close>\<close>

text \<open>
  What \<^verbatim>\<open>safeParseAsync\<close> resolves to: \<^verbatim>\<open>{ success: true, data }\<close> or
  \<^verbatim>\<open>{ success: false, error }\<close> with the issue list \<^verbatim>\<open>error.issues\<close>.
\<close>

datatype safe_parse_result = Success jsvalue | Failure "issue list"

text \<open>
  A schema object, as far as the adapter looks into it. The adapter reads six things
  from a schema object, and a schema of the model holds exactly these:

    \<^item> \<open>zod_class\<close>: which of the classes \<^verbatim>\<open>ZodObject\<close> and \<^verbatim>\<open>ZodDefault\<close>, as the source
      imports them from \<^verbatim>\<open>zod\<close>, the object is an instance of (\<^verbatim>\<open>instanceof\<close>), if any;
    \<^item> \<open>typeName\<close>: the value of \<^verbatim>\<open>_def?.typeName || _zod?.def?.typeName\<close>, with \<open>None\<close> for
      \<^verbatim>\<open>undefined\<close>;
    \<^item> \<open>isOptional\<close>: the answer of its method \<^verbatim>\<open>isOptional()\<close>;
    \<^item> \<open>shape\<close>: its property \<^verbatim>\<open>shape\<close>, a plain object of field schemas, with \<open>None\<close>
      for \<^verbatim>\<open>undefined\<close>;
    \<^item> \<open>def_type\<close>: the value of \<^verbatim>\<open>_def?.type || _zod?.def?.type || null\<close>, which is a
      schema, a truthy value that is no schema, or \<^verbatim>\<open>null\<close>;
    \<^item> \<open>defaultValue\<close>: the outcome of the call \<^verbatim>\<open>_def.defaultValue()\<close>, which is the value
      that the called function returns, the exception that it throws, or a \<^verbatim>\<open>TypeError\<close>
      when \<^verbatim>\<open>_def.defaultValue\<close> is not a function.

  The schema library that built the object decides what these are. An object built by
  zod 3 carries its \<^verbatim>\<open>_def.typeName\<close> (\<^verbatim>\<open>'ZodObject'\<close>, \<^verbatim>\<open>'ZodArray'\<close>, ...), an array keeps
  its element schema in \<^verbatim>\<open>_def.type\<close>, and \<^verbatim>\<open>_def.defaultValue\<close> of a schema with a default
  is a function. An object built by zod 4 has no \<^verbatim>\<open>typeName\<close> in either place, keeps the
  name of its kind (a string such as \<^verbatim>\<open>'array'\<close>) in \<^verbatim>\<open>_def.type\<close>, and
  \<^verbatim>\<open>_def.defaultValue\<close> of a schema with a default is the default value itself.
\<close>

datatype zod_class = ZodObject | ZodDefault | OtherClass

text \<open>
  What a property read that looks for a schema yields: \<^verbatim>\<open>undefined\<close> or \<^verbatim>\<open>null\<close> (both
  falsy, \<open>Nullish\<close>), a truthy value that is no schema (it has neither \<^verbatim>\<open>_def\<close> nor \<^verbatim>\<open>_zod\<close>
  and no \<^verbatim>\<open>isOptional\<close> method), or a schema.
\<close>

datatype 'a lookup = Nullish | NotASchema | Resolved 'a

datatype schema =
  Schema (zod_class: zod_class) (typeName: "string option") (isOptional: bool)
    (shape: "(string \<times> schema) list option") (def_type: "schema lookup")
    (defaultValue: "exn + jsvalue")

type_synonym resolved = "schema lookup"

text \<open>\<^verbatim>\<open>getDefType\<close>, \<^verbatim>\<open>isArraySchema\<close> and \<^verbatim>\<open>isObjectSchema\<close> of the source.\<close>

definition getDefType :: "schema \<Rightarrow> string option" where
  "getDefType s = typeName s"

definition isArraySchema :: "schema \<Rightarrow> bool" where
  "isArraySchema s = (getDefType s = Some ''ZodArray'')"

definition isObjectSchema :: "schema \<Rightarrow> bool" where
  "isObjectSchema s = (getDefType s = Some ''ZodObject'')"

text \<open>
  The wrapped schema: its structure and its two validation entry points, which the
  adapter only calls. \<^verbatim>\<open>safeParseAsync(value, opts)\<close> resolves to a result;
  \<^verbatim>\<open>parse(value)\<close> returns the parsed value or throws.
\<close>

record zodSchema =
  zdef :: schema
  safeParseAsync :: "jsvalue \<Rightarrow> jsvalue \<Rightarrow> safe_parse_result"
  parseSync :: "jsvalue \<Rightarrow> exn + jsvalue"

text \<open>
  The functions the source imports from \<^verbatim>\<open>../../shared\<close> and \<^verbatim>\<open>vee-validate\<close>, which
  are not among the sources: they are parameters of the model.
\<close>

record helpers =
  normalizeFormPath :: "string \<Rightarrow> string"
  isIndex :: "string \<Rightarrow> bool"
  isNotNestedPath :: "string \<Rightarrow> bool"
  cleanupNonNestedPath :: "string \<Rightarrow> string"
  merge :: "jsvalue \<Rightarrow> jsvalue \<Rightarrow> jsvalue"

text \<open>
  Modelled from the spec: \<^verbatim>\<open>isObject\<close> of \<^verbatim>\<open>../../shared\<close> is not among the sources;
  the spec reads it as "is a plain mapping".
\<close>

fun isObject :: "jsvalue \<Rightarrow> bool" where
  "isObject (JObj ps) = True"
| "isObject v = False"

section \<open>\<^verbatim>\<open>getDefaults\<close>\<close>

text \<open>
  The callback of \<^verbatim>\<open>Object.entries(schema.shape).map(...)\<close> runs on the entries from left
  to right; the first call that throws ends the whole extraction.
\<close>

fun sequence :: "(exn + 'a) list \<Rightarrow> exn + 'a list" where
  "sequence [] = Inr []"
| "sequence (Inl e # rs) = Inl e"
| "sequence (Inr x # rs) = (case sequence rs of Inl e \<Rightarrow> Inl e | Inr xs \<Rightarrow> Inr (x # xs))"

lemma set_Object_entries: "set (Object_entries obj) = set obj"
  by (auto simp: Object_entries_def)

lemma size_field_less:
  "(k, s) \<in> set sh \<Longrightarrow> size s < size_list (size_prod (\<lambda>x. 0) size) sh"
  by (induction sh) auto

text \<open>
  \<^verbatim>\<open>getDefaults(schema)\<close>. \<^verbatim>\<open>Object.entries\<close> of an \<^verbatim>\<open>undefined\<close> shape throws a
  \<^verbatim>\<open>TypeError\<close>.
\<close>

function getDefaults :: "schema \<Rightarrow> exn + jsvalue" where
  "getDefaults (Schema c tn opt sho dt dv) =
     (if c \<noteq> ZodObject then Inr JUndefined
      else (case sho of
              None \<Rightarrow> Inl TypeError
            | Some sh \<Rightarrow>
                (case sequence (map (\<lambda>(key, v).
                         if zod_class v = ZodDefault then
                           (case defaultValue v of Inl e \<Rightarrow> Inl e | Inr d \<Rightarrow> Inr (key, d))
                         else if zod_class v = ZodObject then
                           (case getDefaults v of Inl e \<Rightarrow> Inl e | Inr d \<Rightarrow> Inr (key, d))
                         else Inr (key, JUndefined))
                       (Object_entries sh)) of
                   Inl e \<Rightarrow> Inl e
                 | Inr es \<Rightarrow> Inr (JObj (Object_fromEntries es)))))"
  by pat_completeness auto
termination
proof (relation "measure size")
  show "wf (measure size)"
    by simp
next
  fix c tn opt sho dt dv sh and x :: "string \<times> schema" and key v
  assume "sho = Some sh" and "x \<in> set (Object_entries sh)" and "(key, v) = x"
  then have "(key, v) \<in> set sh"
    by (simp add: set_Object_entries)
  then have "size v < size_list (size_prod (\<lambda>x. 0) size) sh"
    by (rule size_field_less)
  with \<open>sho = Some sh\<close> show "(v, Schema c tn opt sho dt dv) \<in> measure size"
    by simp
qed

section \<open>\<^verbatim>\<open>getSchemaForPath\<close>\<close>

text \<open>
  The read \<^verbatim>\<open>shape[k]\<close>: the field schema, \<^verbatim>\<open>undefined\<close>, or a member of
  \<^verbatim>\<open>Object.prototype\<close> when the key names one and the shape has no field of that name.
\<close>

definition read_shape :: "(string \<times> schema) list \<Rightarrow> string \<Rightarrow> resolved" where
  "read_shape sh k =
     (case get_property sh k of
        Own s \<Rightarrow> Resolved s
      | Inherited \<Rightarrow> NotASchema
      | Absent \<Rightarrow> Nullish)"

text \<open>
  \<^verbatim>\<open>path.split(/\.|\[(\d+)\]/)\<close>: the separators are a dot, and an opening bracket, one or
  more digits and a closing bracket. A split on a regular expression with a group also
  yields what the group captured at each separator: \<^verbatim>\<open>undefined\<close> (\<open>None\<close>) at a dot,
  the digits at a bracketed index. \<open>bracket_index\<close> matches the rest of the second
  alternative after the opening bracket.
\<close>

definition bracket_index :: "string \<Rightarrow> (string \<times> string) option" where
  "bracket_index cs =
     (let ds = takeWhile is_digit cs; r = dropWhile is_digit cs
      in if ds \<noteq> [] \<and> r \<noteq> [] \<and> hd r = CHR '']'' then Some (ds, tl r) else None)"

lemma bracket_index_shorter:
  assumes "bracket_index cs = Some (ds, r)"
  shows "length r < length cs"
proof -
  from assms have r: "r = tl (dropWhile is_digit cs)" and ne: "dropWhile is_digit cs \<noteq> []"
    by (auto simp: bracket_index_def Let_def split: if_splits)
  from ne have "length r < length (dropWhile is_digit cs)"
    by (simp add: r)
  also have "\<dots> \<le> length cs"
    by (rule length_dropWhile_le)
  finally show ?thesis .
qed

function split_path :: "string \<Rightarrow> string \<Rightarrow> string option list" where
  "split_path acc [] = [Some acc]"
| "split_path acc (c # cs) =
     (if c = CHR ''.'' then Some acc # None # split_path [] cs
      else if c = CHR ''['' then
        (case bracket_index cs of
           Some (ds, r) \<Rightarrow> Some acc # Some ds # split_path [] r
         | None \<Rightarrow> split_path (acc @ [c]) cs)
      else split_path (acc @ [c]) cs)"
  by pat_completeness auto
termination
  by (relation "measure (\<lambda>(acc, cs). length cs)")
     (auto dest: bracket_index_shorter)

text \<open>\<^verbatim>\<open>.filter(Boolean)\<close> drops \<^verbatim>\<open>undefined\<close> and the empty string.\<close>

fun filter_Boolean :: "string option list \<Rightarrow> string list" where
  "filter_Boolean [] = []"
| "filter_Boolean (None # xs) = filter_Boolean xs"
| "filter_Boolean (Some s # xs) = (if s = [] then filter_Boolean xs else s # filter_Boolean xs)"

text \<open>
  The loop \<^verbatim>\<open>for (let i = 0; i <= paths.length; i++)\<close> on the segments that are left.
  No segment is empty, so \<^verbatim>\<open>!p\<close> holds exactly at \<^verbatim>\<open>i = paths.length\<close>, where the list is
  exhausted and the loop returns \<^verbatim>\<open>currentSchema\<close>; the \<^verbatim>\<open>return null\<close> after the loop is
  never reached. Reading \<^verbatim>\<open>shape[p]\<close> of a schema without a shape throws. A current value
  that is no schema is neither object-shaped nor array-shaped, and stays as it is.
\<close>

fun walk :: "helpers \<Rightarrow> resolved \<Rightarrow> string list \<Rightarrow> exn + resolved" where
  "walk h currentSchema [] = Inr currentSchema"
| "walk h Nullish (p # ps) = Inr Nullish"
| "walk h NotASchema (p # ps) = walk h NotASchema ps"
| "walk h (Resolved s) (p # ps) =
     (if isObjectSchema s then
        (case shape s of
           None \<Rightarrow> Inl TypeError
         | Some sh \<Rightarrow> walk h (read_shape sh p) ps)
      else if isIndex h p \<and> isArraySchema s then walk h (def_type s) ps
      else walk h (Resolved s) ps)"

definition getSchemaForPath :: "helpers \<Rightarrow> string \<Rightarrow> schema \<Rightarrow> exn + resolved" where
  "getSchemaForPath h pth s =
     (if \<not> isObjectSchema s then Inr Nullish
      else if isNotNestedPath h pth then
        (case shape s of
           None \<Rightarrow> Inl TypeError
         | Some sh \<Rightarrow> Inr (read_shape sh (cleanupNonNestedPath h pth)))
      else walk h (Resolved s) (filter_Boolean (split_path [] pth)))"

section \<open>\<^verbatim>\<open>toTypedSchema\<close>\<close>

record parse_result =
  result_value :: "jsvalue option"
  result_errors :: "TypedSchemaError list"

record description =
  required :: bool
  exists :: bool

record TypedSchema =
  type_tag :: string
  parse :: "jsvalue \<Rightarrow> exn + parse_result"
  cast :: "jsvalue \<Rightarrow> exn + jsvalue"
  describe :: "string option \<Rightarrow> exn + description"

text \<open>
  The body of the \<^verbatim>\<open>try\<close> block of \<^verbatim>\<open>describe\<close>. The argument is \<open>None\<close> when
  \<^verbatim>\<open>describe\<close> is called without a path; \<^verbatim>\<open>!path\<close> also holds for the empty string.
\<close>

definition describe_try :: "helpers \<Rightarrow> zodSchema \<Rightarrow> string option \<Rightarrow> exn + description" where
  "describe_try h zodSchema pth =
     (case pth of
        None \<Rightarrow> Inr \<lparr>required = \<not> isOptional (zdef zodSchema), exists = True\<rparr>
      | Some p \<Rightarrow>
          if p = [] then Inr \<lparr>required = \<not> isOptional (zdef zodSchema), exists = True\<rparr>
          else (case getSchemaForPath h p (zdef zodSchema) of
                  Inl e \<Rightarrow> Inl e
                | Inr Nullish \<Rightarrow> Inr \<lparr>required = False, exists = False\<rparr>
                | Inr NotASchema \<Rightarrow> Inl TypeError
                | Inr (Resolved d) \<Rightarrow> Inr \<lparr>required = \<not> isOptional d, exists = True\<rparr>))"

text \<open>
  The three operations close over the wrapped schema and the options. \<^verbatim>\<open>parse\<close> is
  asynchronous: \<open>Inl\<close> is a rejected promise. The warning that \<^verbatim>\<open>describe\<close> writes to the
  console in a development build is no part of what it returns.
\<close>

definition toTypedSchema :: "helpers \<Rightarrow> zodSchema \<Rightarrow> jsvalue \<Rightarrow> TypedSchema" where
  "toTypedSchema h zodSchema opts =
     \<lparr>type_tag = ''VVTypedSchema'',
      parse = (\<lambda>v.
        case safeParseAsync zodSchema v opts of
          Success d \<Rightarrow> Inr \<lparr>result_value = Some d, result_errors = []\<rparr>
        | Failure issues \<Rightarrow>
            (case processIssues (normalizeFormPath h) issues [] of
               Inl e \<Rightarrow> Inl e
             | Inr errs \<Rightarrow> Inr \<lparr>result_value = None, result_errors = Object_values errs\<rparr>)),
      cast = (\<lambda>values.
        case parseSync zodSchema values of
          Inr v \<Rightarrow> Inr v
        | Inl thrown \<Rightarrow>
            (case getDefaults (zdef zodSchema) of
               Inl e \<Rightarrow> Inl e
             | Inr defaults \<Rightarrow>
                 if isObject defaults \<and> isObject values then Inr (merge h defaults values)
                 else Inr values)),
      describe = (\<lambda>pth.
        case describe_try h zodSchema pth of
          Inl e \<Rightarrow> Inr \<lparr>required = False, exists = False\<rparr>
        | Inr d \<Rightarrow> Inr d)\<rparr>"

section \<open>The imported helpers as the spec describes them\<close>

text \<open>
  Modelled from the spec: \<^verbatim>\<open>normalizeFormPath\<close> of \<^verbatim>\<open>../../shared\<close> is not among the
  sources. The spec: "Normalization collapses bracket-index syntax into the canonical
  dotted form used as the error-map key".
\<close>

fun spec_normalizeFormPath :: "string \<Rightarrow> string" where
  "spec_normalizeFormPath [] = []"
| "spec_normalizeFormPath (c # cs) =
     (if c = CHR ''['' then CHR ''.'' # spec_normalizeFormPath cs
      else if c = CHR '']'' then spec_normalizeFormPath cs
      else c # spec_normalizeFormPath cs)"

text \<open>
  Modelled from the spec: \<^verbatim>\<open>isIndex\<close> of \<^verbatim>\<open>../../shared\<close> is not among the sources. The
  spec: "the current segment is a numeric index".
\<close>

definition spec_isIndex :: "string \<Rightarrow> bool" where
  "spec_isIndex s = (s \<noteq> [] \<and> list_all is_digit s)"

text \<open>
  Modelled from the spec: \<^verbatim>\<open>isNotNestedPath\<close> and \<^verbatim>\<open>cleanupNonNestedPath\<close> of
  \<^verbatim>\<open>vee-validate\<close> are not among the sources. The spec: "If the path form is a single
  non-nested key (no dots, no bracket indices), look it up directly in the root's field
  map".
\<close>

definition spec_isNotNestedPath :: "string \<Rightarrow> bool" where
  "spec_isNotNestedPath p = (CHR ''.'' \<notin> set p \<and> CHR ''['' \<notin> set p \<and> CHR '']'' \<notin> set p)"

definition spec_cleanupNonNestedPath :: "string \<Rightarrow> string" where
  "spec_cleanupNonNestedPath p = p"

text \<open>
  Modelled from the spec: \<^verbatim>\<open>merge\<close> of \<^verbatim>\<open>../../shared\<close> is not among the sources. The
  spec: "shallow-merging \<^verbatim>\<open>value\<close> over those defaults (caller-provided fields win)".
\<close>

fun spec_merge :: "jsvalue \<Rightarrow> jsvalue \<Rightarrow> jsvalue" where
  "spec_merge (JObj target) (JObj source) =
     JObj (foldl (\<lambda>obj e. set_property obj (fst e) (snd e)) target source)"
| "spec_merge target source = target"

definition spec_helpers :: helpers where
  "spec_helpers =
     \<lparr>normalizeFormPath = spec_normalizeFormPath,
      isIndex = spec_isIndex,
      isNotNestedPath = spec_isNotNestedPath,
      cleanupNonNestedPath = spec_cleanupNonNestedPath,
      merge = spec_merge\<rparr>"

section \<open>What \<^verbatim>\<open>parse\<close> reports on a failure, stated on the issue list\<close>

text \<open>
  The issue-flattening algorithm of the spec, as a list: the normalised path and the
  message of every issue that is recorded, in the order of recording. The branch issues
  of a failed union come before the union's own message, and the union's own message is
  left out when its normalised path is empty.
\<close>

function recorded :: "(string \<Rightarrow> string) \<Rightarrow> issue list \<Rightarrow> (string \<times> string) list" where
  "recorded nf [] = []"
| "recorded nf (Issue code p m u # rest) =
     (if code = ''invalid_union'' then
        (case u of None \<Rightarrow> [] | Some branches \<Rightarrow> recorded nf (concat branches))
        @ (if nf (join_dot (map segment_string p)) = [] then []
           else [(nf (join_dot (map segment_string p)), m)])
      else [(nf (join_dot (map segment_string p)), m)])
     @ recorded nf rest"
  by pat_completeness auto
termination
proof (relation "measure (\<lambda>(nf, is). size_list size is)")
  show "wf (measure (\<lambda>(nf, is). size_list size is))"
    by simp
next
  fix nf :: "string \<Rightarrow> string" and code p m u rest and branches :: "issue list list"
  assume "u = Some branches"
  then show "((nf, concat branches), (nf, Issue code p m u # rest))
      \<in> measure (\<lambda>(nf, is). size_list size is)"
    using size_list_concat_le [of size branches] by simp
qed simp_all

text \<open>
  The error list the spec describes: one entry for each distinct path, in the order in
  which the paths are first seen, with the messages recorded against the path in the
  order of recording.
\<close>

definition first_seen :: "'a list \<Rightarrow> 'a list" where
  "first_seen xs = rev (remdups (rev xs))"

definition entry_for :: "(string \<times> string) list \<Rightarrow> string \<Rightarrow> TypedSchemaError" where
  "entry_for rs q = \<lparr>errors = map snd (filter (\<lambda>r. fst r = q) rs), path = q\<rparr>"

definition grouped :: "(string \<times> string) list \<Rightarrow> TypedSchemaError list" where
  "grouped rs = map (entry_for rs) (first_seen (map fst rs))"

text \<open>
  The order in which \<^verbatim>\<open>Object.values\<close> lists the entries of the error map: the entries
  whose path is an array index first, by ascending index, then the others as they are.
\<close>

definition index_paths_first :: "TypedSchemaError list \<Rightarrow> TypedSchemaError list" where
  "index_paths_first es =
     sort_key (\<lambda>e. decimal_value (path e)) (filter (\<lambda>e. is_array_index (path e)) es)
     @ filter (\<lambda>e. \<not> is_array_index (path e)) es"

text \<open>The error map that holds a list of entries, each under its path.\<close>

definition keyed :: "TypedSchemaError list \<Rightarrow> error_map" where
  "keyed es = map (\<lambda>e. (path e, e)) es"

text \<open>
  The nested per-branch issue lists of a union issue, as \<^verbatim>\<open>processIssues\<close> passes them
  on: \<^verbatim>\<open>unionErrors.flatMap(ue => ue.issues)\<close>, and nothing without \<^verbatim>\<open>unionErrors\<close>.
\<close>

definition branch_issues :: "issue list list option \<Rightarrow> issue list" where
  "branch_issues u = (case u of None \<Rightarrow> [] | Some branches \<Rightarrow> concat branches)"

section \<open>What \<^verbatim>\<open>getDefaults\<close> extracts, stated on the schema\<close>

text \<open>
  The extraction meets no obstacle: every instance of \<^verbatim>\<open>ZodObject\<close> that it visits has
  a shape, and every call \<^verbatim>\<open>_def.defaultValue()\<close> that it makes returns a value. The
  calls are those on the fields of the object that are instances of \<^verbatim>\<open>ZodDefault\<close>, and
  on such fields of its nested instances of \<^verbatim>\<open>ZodObject\<close>.
\<close>

function calls_return :: "schema \<Rightarrow> bool" where
  "calls_return (Schema c tn opt sho dt dv) =
     (if c \<noteq> ZodObject then True
      else (case sho of
              None \<Rightarrow> False
            | Some sh \<Rightarrow>
                list_all (\<lambda>(key, v).
                   if zod_class v = ZodDefault then
                     (case defaultValue v of Inl e \<Rightarrow> False | Inr d \<Rightarrow> True)
                   else if zod_class v = ZodObject then calls_return v
                   else True) sh))"
  by pat_completeness auto
termination
proof (relation "measure size")
  show "wf (measure size)"
    by simp
next
  fix c tn opt sho dt dv sh and x :: "string \<times> schema" and key v
  assume "sho = Some sh" and "x \<in> set sh" and "(key, v) = x"
  then have "(key, v) \<in> set sh"
    by simp
  then have "size v < size_list (size_prod (\<lambda>x. 0) size) sh"
    by (rule size_field_less)
  with \<open>sho = Some sh\<close> show "(v, Schema c tn opt sho dt dv) \<in> measure size"
    by simp
qed

text \<open>
  The default of one field, when the extraction meets no obstacle: what the call
  \<^verbatim>\<open>_def.defaultValue()\<close> returns for an instance of \<^verbatim>\<open>ZodDefault\<close>, the extracted defaults
  for an instance of \<^verbatim>\<open>ZodObject\<close>, and \<^verbatim>\<open>undefined\<close> for any other field.
\<close>

definition field_default :: "schema \<Rightarrow> jsvalue" where
  "field_default v =
     (if zod_class v = ZodDefault then
        (case defaultValue v of Inl e \<Rightarrow> JUndefined | Inr d \<Rightarrow> d)
      else if zod_class v = ZodObject then
        (case getDefaults v of Inl e \<Rightarrow> JUndefined | Inr d \<Rightarrow> d)
      else JUndefined)"

section \<open>Example schemas\<close>

text \<open>
  Schema objects as zod 4 builds them. None of them has a \<^verbatim>\<open>typeName\<close>, and \<^verbatim>\<open>_def.type\<close> of
  each is the name of its kind, a string. \<open>zod4_schema\<close> is a schema that is no instance
  of \<^verbatim>\<open>ZodObject\<close> or \<^verbatim>\<open>ZodDefault\<close> (a string, a number, a union, an array, ...), with the
  answer of its \<^verbatim>\<open>isOptional()\<close>; \<open>zod4_object\<close> is an object with its shape. Neither has a
  \<^verbatim>\<open>_def.defaultValue\<close>. \<open>zod4_default\<close> is a schema with a default value that is not itself
  a function, such as \<^verbatim>\<open>z.string().default('user')\<close>: its \<^verbatim>\<open>_def.defaultValue\<close> is that value,
  so the call \<^verbatim>\<open>_def.defaultValue()\<close> throws a \<^verbatim>\<open>TypeError\<close>.
\<close>

definition zod4_schema :: "bool \<Rightarrow> schema" where
  "zod4_schema opt = Schema OtherClass None opt None NotASchema (Inl TypeError)"

definition zod4_object :: "bool \<Rightarrow> (string \<times> schema) list \<Rightarrow> schema" where
  "zod4_object opt sh = Schema ZodObject None opt (Some sh) NotASchema (Inl TypeError)"

definition zod4_default :: schema where
  "zod4_default = Schema ZodDefault None True None NotASchema (Inl TypeError)"

text \<open>
  Schema objects as zod 3 builds them, where the import of \<^verbatim>\<open>zod\<close> in the source is zod 3.
  Each carries its \<^verbatim>\<open>_def.typeName\<close>. Only an array has a \<^verbatim>\<open>_def.type\<close>, its element schema.
  \<open>zod3_default\<close> is a schema with a default: \<^verbatim>\<open>_def.defaultValue\<close> is a function, and the
  argument is the outcome of calling it.
\<close>

definition zod3_schema :: "string \<Rightarrow> bool \<Rightarrow> schema" where
  "zod3_schema name opt = Schema OtherClass (Some name) opt None Nullish (Inl TypeError)"

definition zod3_object :: "bool \<Rightarrow> (string \<times> schema) list \<Rightarrow> schema" where
  "zod3_object opt sh =
     Schema ZodObject (Some ''ZodObject'') opt (Some sh) Nullish (Inl TypeError)"

definition zod3_array :: "bool \<Rightarrow> schema \<Rightarrow> schema" where
  "zod3_array opt el =
     Schema OtherClass (Some ''ZodArray'') opt None (Resolved el) (Inl TypeError)"

definition zod3_default :: "exn + jsvalue \<Rightarrow> schema" where
  "zod3_default outcome = Schema ZodDefault (Some ''ZodDefault'') True None Nullish outcome"

text \<open>
  The validation of an example schema is what the schema library answers on the inputs
  used below; the adapter never looks into it.

  The schema of the repository's test, built by zod 4,
  \<^verbatim>\<open>z.object({ email: z.string().email({ error: 'Invalid email format' }),
  age: z.number().min(18, { error: 'Must be at least 18 years old' }) })\<close>, on the two
  inputs of the test: \<^verbatim>\<open>{ email: 'test@example.com', age: 25 }\<close>, which it accepts, and
  \<^verbatim>\<open>{ email: 'invalid-email', age: 15 }\<close>, which it rejects with two issues.
\<close>

definition signup_valid :: jsvalue where
  "signup_valid = JObj [(''email'', JStr ''test@example.com''), (''age'', JNum 25)]"

definition signup_invalid :: jsvalue where
  "signup_invalid = JObj [(''email'', JStr ''invalid-email''), (''age'', JNum 15)]"

definition signup_issues :: "issue list" where
  "signup_issues =
     [Issue ''invalid_format'' [Key ''email''] ''Invalid email format'' None,
      Issue ''too_small'' [Key ''age''] ''Must be at least 18 years old'' None]"

definition signup_zod :: zodSchema where
  "signup_zod =
     \<lparr>zdef = zod4_object False [(''email'', zod4_schema False), (''age'', zod4_schema False)],
      safeParseAsync = (\<lambda>v opts. if v = signup_invalid then Failure signup_issues else Success v),
      parseSync = (\<lambda>v. if v = signup_invalid then Inl ZodError else Inr v)\<rparr>"

text \<open>\<^verbatim>\<open>z.string().optional()\<close>, built by zod 4, on inputs that it accepts.\<close>

definition nickname_zod :: zodSchema where
  "nickname_zod =
     \<lparr>zdef = zod4_schema True,
      safeParseAsync = (\<lambda>v opts. Success v),
      parseSync = (\<lambda>v. Inr v)\<rparr>"

text \<open>
  \<^verbatim>\<open>z.object({ items: z.array(z.object({ name: z.string() })), note: z.string().optional() })\<close>,
  built by zod 3, on inputs that it accepts unchanged. Path resolution reads
  \<^verbatim>\<open>typeName\<close>, \<^verbatim>\<open>shape\<close> and \<^verbatim>\<open>_def.type\<close> of these objects, and not their class.
\<close>

definition order_schema :: schema where
  "order_schema =
     zod3_object False
       [(''items'', zod3_array False (zod3_object False [(''name'', zod3_schema ''ZodString'' False)])),
        (''note'', zod3_schema ''ZodOptional'' True)]"

definition order_zod :: zodSchema where
  "order_zod =
     \<lparr>zdef = order_schema,
      safeParseAsync = (\<lambda>v opts. Success v),
      parseSync = (\<lambda>v. Inr v)\<rparr>"

text \<open>The same schema, built by zod 4.\<close>

definition order4_zod :: zodSchema where
  "order4_zod =
     \<lparr>zdef = zod4_object False [(''items'', zod4_schema False), (''note'', zod4_schema True)],
      safeParseAsync = (\<lambda>v opts. Success v),
      parseSync = (\<lambda>v. Inr v)\<rparr>"

text \<open>
  A schema object that names itself \<^verbatim>\<open>ZodObject\<close> and has no \<^verbatim>\<open>shape\<close>.
\<close>

definition foreign_zod :: zodSchema where
  "foreign_zod =
     \<lparr>zdef = Schema OtherClass (Some ''ZodObject'') False None Nullish (Inl TypeError),
      safeParseAsync = (\<lambda>v opts. Success v),
      parseSync = (\<lambda>v. Inr v)\<rparr>"

text \<open>
  \<^verbatim>\<open>z.array(z.string()).min(2)\<close> and the input \<^verbatim>\<open>[5]\<close>: the schema library reports the
  length issue at the root path first and the element issue at index 0 second.
\<close>

definition tags_issues :: "issue list" where
  "tags_issues =
     [Issue ''too_small'' [] ''Array must contain at least 2 element(s)'' None,
      Issue ''invalid_type'' [Index 0] ''Expected string, received number'' None]"

definition tags_zod :: zodSchema where
  "tags_zod =
     \<lparr>zdef = zod3_array False (zod3_schema ''ZodString'' False),
      safeParseAsync = (\<lambda>v opts. if v = JArr [JNum 5] then Failure tags_issues else Success v),
      parseSync = (\<lambda>v. if v = JArr [JNum 5] then Inl ZodError else Inr v)\<rparr>"

text \<open>
  The schema of the repository's test of union types, built by zod 4,
  \<^verbatim>\<open>z.object({ type: z.union([z.literal('user'), z.literal('admin')]),
  data: z.union([z.string(), z.number()]) })\<close>, and the input
  \<^verbatim>\<open>{ type: 'user', data: true }\<close>. zod 4 reports one issue, with code \<^verbatim>\<open>invalid_union\<close>,
  path \<^verbatim>\<open>['data']\<close> and message \<^verbatim>\<open>Invalid input\<close>. It keeps the issue lists of the two
  branches (a string was expected, a number was expected) in the property \<^verbatim>\<open>errors\<close> of
  that issue, which \<^verbatim>\<open>processIssues\<close> does not read; the issue has no property
  \<^verbatim>\<open>unionErrors\<close>.
\<close>

definition member_invalid :: jsvalue where
  "member_invalid = JObj [(''type'', JStr ''user''), (''data'', JBool True)]"

definition member_issues :: "issue list" where
  "member_issues = [Issue ''invalid_union'' [Key ''data''] ''Invalid input'' None]"

definition member_zod :: zodSchema where
  "member_zod =
     \<lparr>zdef = zod4_object False [(''type'', zod4_schema False), (''data'', zod4_schema False)],
      safeParseAsync = (\<lambda>v opts. if v = member_invalid then Failure member_issues else Success v),
      parseSync = (\<lambda>v. if v = member_invalid then Inl ZodError else Inr v)\<rparr>"

text \<open>
  \<^verbatim>\<open>z.union([z.string(), z.number()])\<close>, built by zod 4, and the input \<^verbatim>\<open>true\<close>: the same
  issue at the root path.
\<close>

definition choice_issues :: "issue list" where
  "choice_issues = [Issue ''invalid_union'' [] ''Invalid input'' None]"

definition choice_zod :: zodSchema where
  "choice_zod =
     \<lparr>zdef = zod4_schema False,
      safeParseAsync = (\<lambda>v opts. if v = JBool True then Failure choice_issues else Success v),
      parseSync = (\<lambda>v. if v = JBool True then Inl ZodError else Inr v)\<rparr>"

text \<open>
  \<^verbatim>\<open>z.object({ name: z.string(), role: z.string().default('user') })\<close>, on inputs without
  a name, which it rejects: built by zod 4, and built by zod 3.
\<close>

definition profile_fields :: "(string \<times> schema) list" where
  "profile_fields = [(''name'', zod4_schema False), (''role'', zod4_default)]"

definition profile_zod :: zodSchema where
  "profile_zod =
     \<lparr>zdef = zod4_object False profile_fields,
      safeParseAsync = (\<lambda>v opts.
        Failure [Issue ''invalid_type'' [Key ''name'']
                   ''Invalid input: expected string, received undefined'' None]),
      parseSync = (\<lambda>v. Inl ZodError)\<rparr>"

definition profile3_fields :: "(string \<times> schema) list" where
  "profile3_fields =
     [(''name'', zod3_schema ''ZodString'' False), (''role'', zod3_default (Inr (JStr ''user'')))]"

text \<open>
  \<^verbatim>\<open>z.object({ name: z.string(), address: z.object({ city: z.string(), zip: z.string() }) })\<close>,
  built by zod 4, on inputs without an address, which it rejects. No field has a default.
\<close>

definition address_fields :: "(string \<times> schema) list" where
  "address_fields = [(''city'', zod4_schema False), (''zip'', zod4_schema False)]"

definition contact_fields :: "(string \<times> schema) list" where
  "contact_fields = [(''name'', zod4_schema False), (''address'', zod4_object False address_fields)]"

definition contact_zod :: zodSchema where
  "contact_zod =
     \<lparr>zdef = zod4_object False contact_fields,
      safeParseAsync = (\<lambda>v opts.
        Failure [Issue ''invalid_type'' [Key ''address'']
                   ''Invalid input: expected object, received undefined'' None]),
      parseSync = (\<lambda>v. Inl ZodError)\<rparr>"

text \<open>
  \<^verbatim>\<open>z.object({ id: z.string().default(() => { throw ... }), seats: z.number() })\<close>, on
  inputs with an \<^verbatim>\<open>id\<close> that it rejects for another reason. The default of \<^verbatim>\<open>id\<close> is
  computed by a function that throws, so the call \<^verbatim>\<open>_def.defaultValue()\<close> raises what that
  function throws.
\<close>

definition ticket_zod :: zodSchema where
  "ticket_zod =
     \<lparr>zdef = zod4_object False
         [(''id'', Schema ZodDefault None True None NotASchema (Inl (Thrown ''no id''))),
          (''seats'', zod4_schema False)],
      safeParseAsync = (\<lambda>v opts.
        Failure [Issue ''invalid_type'' [Key ''seats'']
                   ''Invalid input: expected number, received string'' None]),
      parseSync = (\<lambda>v. Inl ZodError)\<rparr>"

section \<open>\<^verbatim>\<open>parse\<close> on valid input\<close>

text \<open>
  Claim C7. Whenever the wrapped schema's asynchronous safe validation accepts the input
  with data \<open>d\<close>, \<^verbatim>\<open>parse\<close> returns \<open>d\<close> as the value together with an empty error list.
\<close>

theorem parse_success:
  "safeParseAsync z v opts = Success d \<Longrightarrow>
   parse (toTypedSchema h z opts) v = Inr \<lparr>result_value = Some d, result_errors = []\<rparr>"
  by (simp add: toTypedSchema_def)

theorem parse_success_witness:
  "safeParseAsync signup_zod signup_valid JUndefined = Success signup_valid \<and>
   parse (toTypedSchema spec_helpers signup_zod JUndefined) signup_valid
     = Inr \<lparr>result_value = Some signup_valid, result_errors = []\<rparr>"
proof -
  have s: "safeParseAsync signup_zod signup_valid JUndefined = Success signup_valid"
    by (simp add: signup_zod_def signup_valid_def signup_invalid_def)
  from s parse_success [OF s, of spec_helpers] show ?thesis
    by simp
qed

text \<open>
  On the rejected input of the repository's test, \<^verbatim>\<open>parse\<close> returns the two entries that
  the test expects, in the order in which it expects them.
\<close>

lemma parse_signup_invalid:
  "parse (toTypedSchema spec_helpers signup_zod JUndefined) signup_invalid
     = Inr \<lparr>result_value = None,
            result_errors =
              [\<lparr>errors = [''Invalid email format''], path = ''email''\<rparr>,
               \<lparr>errors = [''Must be at least 18 years old''], path = ''age''\<rparr>]\<rparr>"
  by (simp add: toTypedSchema_def signup_zod_def signup_issues_def spec_helpers_def Let_def
      push_message_def get_property_def Object_prototype_keys_def
      Object_values_def Object_entries_def is_array_index_def array_index_def is_digit_def)

section \<open>\<^verbatim>\<open>describe\<close>\<close>

text \<open>
  Claim C8. Called without a path (or with the empty path), \<^verbatim>\<open>describe\<close> returns
  \<open>exists = True\<close>, and \<open>required\<close> exactly when the wrapped schema is not optional at
  its top level.
\<close>

theorem describe_without_path:
  "describe (toTypedSchema h z opts) None
     = Inr \<lparr>required = \<not> isOptional (zdef z), exists = True\<rparr> \<and>
   describe (toTypedSchema h z opts) (Some [])
     = Inr \<lparr>required = \<not> isOptional (zdef z), exists = True\<rparr>"
  by (simp add: toTypedSchema_def describe_try_def)

theorem describe_without_path_witness:
  "describe (toTypedSchema spec_helpers signup_zod JUndefined) None
     = Inr \<lparr>required = True, exists = True\<rparr> \<and>
   describe (toTypedSchema spec_helpers tags_zod JUndefined) (Some [])
     = Inr \<lparr>required = True, exists = True\<rparr> \<and>
   describe (toTypedSchema spec_helpers nickname_zod JUndefined) None
     = Inr \<lparr>required = False, exists = True\<rparr>"
  using describe_without_path [of spec_helpers signup_zod JUndefined]
    describe_without_path [of spec_helpers tags_zod JUndefined]
    describe_without_path [of spec_helpers nickname_zod JUndefined]
  by (simp add: signup_zod_def tags_zod_def nickname_zod_def zod4_object_def zod4_schema_def
      zod3_array_def)

section \<open>Path resolution\<close>

text \<open>
  The routine starts with the test \<^verbatim>\<open>isObjectSchema(schema)\<close>, which reads the
  \<^verbatim>\<open>typeName\<close> of the root. For a schema object that has none, as every object built by
  zod 4, it returns \<^verbatim>\<open>null\<close> there, whatever the path, and \<^verbatim>\<open>describe\<close> with a path reports
  that the path does not exist. The loop over the segments is reached only with a root
  whose \<^verbatim>\<open>typeName\<close> is \<^verbatim>\<open>'ZodObject'\<close>, as the objects built by zod 3 have it, and the two
  tests inside the loop read \<^verbatim>\<open>_def.typeName\<close> first as well.
\<close>

lemma getSchemaForPath_without_typeName:
  "typeName s = None \<Longrightarrow> getSchemaForPath h p s = Inr Nullish"
  by (simp add: getSchemaForPath_def isObjectSchema_def getDefType_def)

lemma describe_without_typeName:
  "typeName (zdef z) = None \<Longrightarrow> p \<noteq> [] \<Longrightarrow>
   describe (toTypedSchema h z opts) (Some p) = Inr \<lparr>required = False, exists = False\<rparr>"
  by (simp add: toTypedSchema_def describe_try_def getSchemaForPath_without_typeName)

lemma describe_order4:
  "describe (toTypedSchema h order4_zod opts) (Some ''items'')
     = Inr \<lparr>required = False, exists = False\<rparr>"
  by (rule describe_without_typeName) (simp_all add: order4_zod_def zod4_object_def)

text \<open>
  For any helpers that take \<^verbatim>\<open>items[0].name\<close> for a nested path and \<^verbatim>\<open>0\<close> for an index,
  the routine resolves \<^verbatim>\<open>items[0].name\<close> on the schema built by zod 3 to the schema of
  \<^verbatim>\<open>name\<close>.
\<close>

lemma getSchemaForPath_items_name:
  assumes "\<not> isNotNestedPath h ''items[0].name''" and "isIndex h ''0''"
  shows "getSchemaForPath h ''items[0].name'' order_schema
    = Inr (Resolved (zod3_schema ''ZodString'' False))"
  using assms
  by (simp add: getSchemaForPath_def order_schema_def zod3_object_def zod3_array_def
      isObjectSchema_def isArraySchema_def getDefType_def
      bracket_index_def read_shape_def get_property_def is_digit_def)

text \<open>
  Claim C3, as stated: at a numeric index over an array schema the routine returns the
  element schema at once and resolves no further segment. It does not: for
  \<^verbatim>\<open>items[0].name\<close> the result is the schema of \<^verbatim>\<open>name\<close>, one segment beyond the element
  schema of \<^verbatim>\<open>items\<close>.
\<close>

theorem array_descent_counterexample:
  "getSchemaForPath spec_helpers ''items[0].name'' order_schema
     = Inr (Resolved (zod3_schema ''ZodString'' False)) \<and>
   getSchemaForPath spec_helpers ''items[0].name'' order_schema
     \<noteq> Inr (Resolved (zod3_object False [(''name'', zod3_schema ''ZodString'' False)]))"
proof -
  have "\<not> isNotNestedPath spec_helpers ''items[0].name''"
    by (simp add: spec_helpers_def spec_isNotNestedPath_def)
  moreover have "isIndex spec_helpers ''0''"
    by (simp add: spec_helpers_def spec_isIndex_def is_digit_def)
  ultimately show ?thesis
    by (simp add: getSchemaForPath_items_name zod3_schema_def zod3_object_def)
qed

text \<open>
  Claim C3, amended: at a numeric index over an array-shaped schema (one whose
  \<^verbatim>\<open>typeName\<close> is \<^verbatim>\<open>'ZodArray'\<close>) the routine makes the value of the array's \<^verbatim>\<open>_def.type\<close>,
  its declared element schema, the current schema and goes on with the remaining
  segments.
\<close>

theorem walk_array_index_continues:
  "isIndex h p \<Longrightarrow> isArraySchema s \<Longrightarrow>
   walk h (Resolved s) (p # ps) = walk h (def_type s) ps"
  by (simp add: isObjectSchema_def isArraySchema_def)

theorem walk_array_index_continues_witness:
  "isIndex spec_helpers ''0'' \<and>
   isArraySchema (zod3_array False (zod3_object False [(''name'', zod3_schema ''ZodString'' False)])) \<and>
   def_type (zod3_array False (zod3_object False [(''name'', zod3_schema ''ZodString'' False)]))
     = Resolved (zod3_object False [(''name'', zod3_schema ''ZodString'' False)]) \<and>
   walk spec_helpers
      (Resolved (zod3_array False (zod3_object False [(''name'', zod3_schema ''ZodString'' False)])))
      [''0'', ''name'']
     = Inr (Resolved (zod3_schema ''ZodString'' False))"
proof -
  let ?el = "zod3_object False [(''name'', zod3_schema ''ZodString'' False)]"
  have i: "isIndex spec_helpers ''0''"
    by (simp add: spec_helpers_def spec_isIndex_def is_digit_def)
  have a: "isArraySchema (zod3_array False ?el)"
    by (simp add: isArraySchema_def getDefType_def zod3_array_def)
  have d: "def_type (zod3_array False ?el) = Resolved ?el"
    by (simp add: zod3_array_def)
  have n: "walk spec_helpers (Resolved ?el) [''name''] = Inr (Resolved (zod3_schema ''ZodString'' False))"
    by (simp add: zod3_object_def isObjectSchema_def getDefType_def read_shape_def get_property_def)
  from walk_array_index_continues [OF i a, of "[''name'']"]
  have "walk spec_helpers (Resolved (zod3_array False ?el)) [''0'', ''name'']
      = Inr (Resolved (zod3_schema ''ZodString'' False))"
    by (simp only: d n)
  with i a d show ?thesis
    by (intro conjI)
qed

text \<open>
  A current schema that is neither object-shaped nor array-shaped stays the current
  schema through all the segments that are left, and is what the loop returns.
\<close>

lemma walk_keeps_leaf:
  "\<not> isObjectSchema s \<Longrightarrow> \<not> isArraySchema s \<Longrightarrow> walk h (Resolved s) ps = Inr (Resolved s)"
  by (induction ps) simp_all

text \<open>
  Claim C4. The claim: a schema that is neither an object nor an array, met while a
  segment is still left, gives the not-found result. The code at
  \<^verbatim>\<open>items[0].name.first\<close> on the schema built by zod 3, where \<^verbatim>\<open>name\<close> is a required
  string: the loop skips the segment \<^verbatim>\<open>first\<close> and returns the schema of \<^verbatim>\<open>name\<close>, so
  \<^verbatim>\<open>describe\<close> reports that the path exists and is required.
\<close>

theorem describe_leaf_with_segment_left:
  "\<not> isNotNestedPath h ''items[0].name.first'' \<Longrightarrow> isIndex h ''0'' \<Longrightarrow>
   describe (toTypedSchema h order_zod opts) (Some ''items[0].name.first'')
     = Inr \<lparr>required = True, exists = True\<rparr>"
  by (simp add: toTypedSchema_def describe_try_def order_zod_def getSchemaForPath_def
      order_schema_def zod3_object_def zod3_array_def zod3_schema_def
      isObjectSchema_def isArraySchema_def getDefType_def bracket_index_def
      read_shape_def get_property_def is_digit_def)

theorem describe_leaf_with_segment_left_witness:
  "\<not> isNotNestedPath spec_helpers ''items[0].name.first'' \<and>
   isIndex spec_helpers ''0'' \<and>
   describe (toTypedSchema spec_helpers order_zod JUndefined) (Some ''items[0].name.first'')
     = Inr \<lparr>required = True, exists = True\<rparr>"
proof -
  have n: "\<not> isNotNestedPath spec_helpers ''items[0].name.first''"
    by (simp add: spec_helpers_def spec_isNotNestedPath_def)
  have i: "isIndex spec_helpers ''0''"
    by (simp add: spec_helpers_def spec_isIndex_def is_digit_def)
  from n i describe_leaf_with_segment_left [OF n i, of JUndefined] show ?thesis
    by simp
qed

text \<open>
  \<^verbatim>\<open>describe\<close> returns a description for every path argument and never raises. When the
  body of its \<^verbatim>\<open>try\<close> block raises, when the routine resolves the path to \<^verbatim>\<open>null\<close> or
  \<^verbatim>\<open>undefined\<close>, or when the routine itself raises, the description is
  \<open>required = False, exists = False\<close>.
\<close>

lemma describe_never_raises:
  "(\<exists>d. describe (toTypedSchema h z opts) pth = Inr d) \<and>
   (describe_try h z pth = Inl e \<longrightarrow>
      describe (toTypedSchema h z opts) pth = Inr \<lparr>required = False, exists = False\<rparr>) \<and>
   (p \<noteq> [] \<and> getSchemaForPath h p (zdef z) = Inr Nullish \<longrightarrow>
      describe (toTypedSchema h z opts) (Some p) = Inr \<lparr>required = False, exists = False\<rparr>) \<and>
   (p \<noteq> [] \<and> getSchemaForPath h p (zdef z) = Inl e \<longrightarrow>
      describe (toTypedSchema h z opts) (Some p) = Inr \<lparr>required = False, exists = False\<rparr>)"
  by (simp add: toTypedSchema_def describe_try_def split: sum.splits)

text \<open>
  The three ways to the description \<open>required = False, exists = False\<close>, on the schema
  built by zod 3: a path that names a member of \<^verbatim>\<open>Object.prototype\<close> (the value looked up
  has no \<^verbatim>\<open>isOptional\<close> method, and the \<^verbatim>\<open>catch\<close> block answers), a field that the root
  does not have, and a schema whose \<^verbatim>\<open>shape\<close> is \<^verbatim>\<open>undefined\<close> (the routine raises).
\<close>

lemma describe_not_found_examples:
  "describe (toTypedSchema spec_helpers order_zod JUndefined) (Some ''toString'')
     = Inr \<lparr>required = False, exists = False\<rparr> \<and>
   describe (toTypedSchema spec_helpers order_zod JUndefined) (Some ''missing'')
     = Inr \<lparr>required = False, exists = False\<rparr> \<and>
   describe (toTypedSchema spec_helpers foreign_zod JUndefined) (Some ''items'')
     = Inr \<lparr>required = False, exists = False\<rparr>"
  by (simp add: toTypedSchema_def describe_try_def getSchemaForPath_def order_zod_def
      order_schema_def foreign_zod_def zod3_object_def isObjectSchema_def getDefType_def
      spec_helpers_def spec_isNotNestedPath_def spec_cleanupNonNestedPath_def read_shape_def
      get_property_def Object_prototype_keys_def)

text \<open>
  A segment that is not an index, met at a current schema that is not object-shaped, is
  passed over: the current schema stays what it is.
\<close>

lemma walk_passes_over_segment:
  "\<not> isObjectSchema s \<Longrightarrow> \<not> isIndex h p \<Longrightarrow>
   walk h (Resolved s) (p # ps) = walk h (Resolved s) ps"
  by simp

text \<open>
  Claim C6. The claim: \<^verbatim>\<open>describe\<close> never raises, and for a path that does not exist it
  returns \<open>required = False, exists = False\<close>. The code returns a description for every
  path argument. But the path \<^verbatim>\<open>items.nosuchfield\<close> does not exist in the schema built by
  zod 3, where \<^verbatim>\<open>items\<close> is a required array: the loop passes over the segment
  \<^verbatim>\<open>nosuchfield\<close> and returns the schema of \<^verbatim>\<open>items\<close>, so \<^verbatim>\<open>describe\<close> reports that the path
  exists and is required.
\<close>

theorem describe_path_that_does_not_exist:
  "(\<exists>d. describe (toTypedSchema h z opts) pth = Inr d) \<and>
   (\<not> isNotNestedPath h ''items.nosuchfield'' \<and> \<not> isIndex h ''nosuchfield'' \<longrightarrow>
      describe (toTypedSchema h order_zod opts) (Some ''items.nosuchfield'')
        = Inr \<lparr>required = True, exists = True\<rparr>)"
proof (intro conjI impI)
  show "\<exists>d. describe (toTypedSchema h z opts) pth = Inr d"
    by (simp add: toTypedSchema_def split: sum.splits)
next
  assume "\<not> isNotNestedPath h ''items.nosuchfield'' \<and> \<not> isIndex h ''nosuchfield''"
  then show "describe (toTypedSchema h order_zod opts) (Some ''items.nosuchfield'')
      = Inr \<lparr>required = True, exists = True\<rparr>"
    by (simp add: toTypedSchema_def describe_try_def order_zod_def getSchemaForPath_def
        order_schema_def zod3_object_def zod3_array_def zod3_schema_def
        isObjectSchema_def isArraySchema_def getDefType_def bracket_index_def
        read_shape_def get_property_def is_digit_def)
qed

theorem describe_path_that_does_not_exist_witness:
  "(\<exists>d. describe (toTypedSchema spec_helpers order_zod JUndefined) (Some ''toString'') = Inr d) \<and>
   \<not> isNotNestedPath spec_helpers ''items.nosuchfield'' \<and>
   \<not> isIndex spec_helpers ''nosuchfield'' \<and>
   describe (toTypedSchema spec_helpers order_zod JUndefined) (Some ''items.nosuchfield'')
     = Inr \<lparr>required = True, exists = True\<rparr>"
proof -
  note t = describe_path_that_does_not_exist [of spec_helpers order_zod JUndefined
      "Some ''toString''"]
  have n: "\<not> isNotNestedPath spec_helpers ''items.nosuchfield''"
    by (simp add: spec_helpers_def spec_isNotNestedPath_def)
  have i: "\<not> isIndex spec_helpers ''nosuchfield''"
    by (simp add: spec_helpers_def spec_isIndex_def is_digit_def)
  from t have 1: "\<exists>d. describe (toTypedSchema spec_helpers order_zod JUndefined) (Some ''toString'') = Inr d"
    by (rule conjunct1)
  from t n i
  have 2: "describe (toTypedSchema spec_helpers order_zod JUndefined) (Some ''items.nosuchfield'')
      = Inr \<lparr>required = True, exists = True\<rparr>"
    by simp
  from 1 n i 2 show ?thesis
    by (intro conjI)
qed

section \<open>\<^verbatim>\<open>parse\<close> on invalid input\<close>

lemma first_seen_snoc:
  "first_seen (xs @ [x]) = (if x \<in> set xs then first_seen xs else first_seen xs @ [x])"
  by (simp add: first_seen_def)

lemma remdups_snoc: "remdups (ys @ [x]) = filter (\<lambda>y. y \<noteq> x) (remdups ys) @ [x]"
  by (induction ys) auto

lemma first_seen_Cons: "first_seen (x # xs) = x # filter (\<lambda>y. y \<noteq> x) (first_seen xs)"
  by (simp add: first_seen_def remdups_snoc rev_filter)

lemma distinct_first_seen: "distinct (first_seen xs)"
  by (simp add: first_seen_def)

lemma set_first_seen: "set (first_seen xs) = set xs"
  by (simp add: first_seen_def)

lemma map_of_tabulate:
  "map_of (map (\<lambda>q. (q, f q)) qs) p = (if p \<in> set qs then Some (f p) else None)"
  by (induction qs) auto

lemma set_property_new:
  "p \<notin> set qs \<Longrightarrow>
   set_property (map (\<lambda>q. (q, f q)) qs) p v = map (\<lambda>q. (q, f q)) qs @ [(p, v)]"
  by (induction qs) auto

lemma set_property_existing:
  "distinct qs \<Longrightarrow> p \<in> set qs \<Longrightarrow>
   set_property (map (\<lambda>q. (q, f q)) qs) p v = map (\<lambda>q. (q, if q = p then v else f q)) qs"
  by (induction qs) auto

lemma keyed_grouped:
  "keyed (grouped rs) = map (\<lambda>q. (q, entry_for rs q)) (first_seen (map fst rs))"
  by (simp add: keyed_def grouped_def entry_for_def comp_def)

lemma entry_for_snoc:
  "entry_for (rs @ [(p, m)]) q =
     (if q = p then (entry_for rs p)\<lparr>errors := errors (entry_for rs p) @ [m]\<rparr> else entry_for rs q)"
  by (simp add: entry_for_def)

lemma push_message_grouped:
  assumes "p \<notin> set Object_prototype_keys"
  shows "push_message p m (keyed (grouped rs)) = Inr (keyed (grouped (rs @ [(p, m)])))"
proof (cases "p \<in> set (map fst rs)")
  case True
  then have seen: "p \<in> set (first_seen (map fst rs))"
    by (simp add: set_first_seen)
  have "push_message p m (keyed (grouped rs))
      = Inr (set_property (map (\<lambda>q. (q, entry_for rs q)) (first_seen (map fst rs))) p
               ((entry_for rs p)\<lparr>errors := errors (entry_for rs p) @ [m]\<rparr>))"
    using seen by (simp add: push_message_def get_property_def keyed_grouped map_of_tabulate)
  also have "\<dots> = Inr (map (\<lambda>q. (q, entry_for (rs @ [(p, m)]) q)) (first_seen (map fst rs)))"
    using seen by (simp add: set_property_existing distinct_first_seen entry_for_snoc)
  also have "\<dots> = Inr (keyed (grouped (rs @ [(p, m)])))"
    using True by (simp add: keyed_grouped first_seen_snoc)
  finally show ?thesis .
next
  case False
  then have unseen: "p \<notin> set (first_seen (map fst rs))"
    by (simp add: set_first_seen)
  have "push_message p m (keyed (grouped rs))
      = Inr (set_property (map (\<lambda>q. (q, entry_for rs q)) (first_seen (map fst rs))) p
               \<lparr>errors = [m], path = p\<rparr>)"
    using unseen assms by (simp add: push_message_def get_property_def keyed_grouped map_of_tabulate)
  also have "\<dots> = Inr (map (\<lambda>q. (q, entry_for rs q)) (first_seen (map fst rs))
                        @ [(p, \<lparr>errors = [m], path = p\<rparr>)])"
    using unseen by (simp add: set_property_new)
  also have "\<dots> = Inr (keyed (grouped (rs @ [(p, m)])))"
  proof -
    have "entry_for (rs @ [(p, m)]) p = \<lparr>errors = [m], path = p\<rparr>"
      using False by (auto simp: entry_for_def filter_empty_conv)
    moreover have "map (\<lambda>q. (q, entry_for (rs @ [(p, m)]) q)) (first_seen (map fst rs))
        = map (\<lambda>q. (q, entry_for rs q)) (first_seen (map fst rs))"
      using unseen by (auto simp: entry_for_snoc)
    ultimately show ?thesis
      using False by (simp add: keyed_grouped first_seen_snoc)
  qed
  finally show ?thesis .
qed

lemma processIssues_grouped:
  "\<forall>r \<in> set (recorded nf issues). fst r \<notin> set Object_prototype_keys \<Longrightarrow>
   processIssues nf issues (keyed (grouped rs)) = Inr (keyed (grouped (rs @ recorded nf issues)))"
proof (induction nf issues arbitrary: rs rule: recorded.induct)
  case (1 nf)
  then show ?case by simp
next
  case (2 nf code p m u rest)
  let ?pth = "nf (join_dot (map segment_string p))"
  show ?case
  proof (cases "code = ''invalid_union''")
    case False
    with "2.prems" have ok: "?pth \<notin> set Object_prototype_keys"
      and rest: "\<forall>r \<in> set (recorded nf rest). fst r \<notin> set Object_prototype_keys"
      by auto
    from False show ?thesis
      by (simp add: push_message_grouped [OF ok] "2.IH"(2) [OF rest])
  next
    case True
    define nested where "nested = (case u of None \<Rightarrow> [] | Some branches \<Rightarrow> recorded nf (concat branches))"
    from True "2.prems" have nested_ok: "\<forall>r \<in> set nested. fst r \<notin> set Object_prototype_keys"
      and rest: "\<forall>r \<in> set (recorded nf rest). fst r \<notin> set Object_prototype_keys"
      and own: "?pth \<noteq> [] \<Longrightarrow> ?pth \<notin> set Object_prototype_keys"
      by (auto simp: nested_def)
    have inner: "(case u of None \<Rightarrow> Inr (keyed (grouped rs))
                 | Some branches \<Rightarrow> processIssues nf (concat branches) (keyed (grouped rs)))
        = Inr (keyed (grouped (rs @ nested)))"
    proof (cases u)
      case None
      then show ?thesis by (simp add: nested_def)
    next
      case (Some branches)
      with nested_ok have "\<forall>r \<in> set (recorded nf (concat branches)). fst r \<notin> set Object_prototype_keys"
        by (simp add: nested_def)
      from "2.IH"(1) [OF True Some this] Some show ?thesis
        by (simp add: nested_def)
    qed
    show ?thesis
    proof (cases "?pth = []")
      case empty: True
      from True empty inner show ?thesis
        by (simp add: "2.IH"(2) [OF rest] nested_def)
    next
      case nonempty: False
      from True nonempty inner show ?thesis
        by (simp add: push_message_grouped [OF own [OF nonempty]] "2.IH"(2) [OF rest] nested_def)
    qed
  qed
qed

lemma insort_key_map:
  "insort_key f (g x) (map g xs) = map g (insort_key (\<lambda>x. f (g x)) x xs)"
  by (induction xs) auto

lemma sort_key_map:
  "sort_key f (map g xs) = map g (sort_key (\<lambda>x. f (g x)) xs)"
  by (induction xs) (auto simp: insort_key_map)

lemma Object_values_keyed: "Object_values (keyed es) = index_paths_first es"
  by (simp add: Object_values_def Object_entries_def keyed_def index_paths_first_def
      filter_map comp_def sort_key_map)

lemma keyed_Nil: "keyed (grouped []) = []"
  by (simp add: keyed_def grouped_def first_seen_def)

lemma index_paths_first_plain:
  "\<forall>e \<in> set es. \<not> is_array_index (path e) \<Longrightarrow> index_paths_first es = es"
  by (simp add: index_paths_first_def filter_empty_conv)

lemma recorded_tags:
  "recorded (normalizeFormPath spec_helpers) tags_issues
     = [([], ''Array must contain at least 2 element(s)''),
        (''0'', ''Expected string, received number'')]"
  by (simp add: tags_issues_def spec_helpers_def digit_char_def string_of_nat.simps)

lemma grouped_tags:
  "grouped (recorded (normalizeFormPath spec_helpers) tags_issues)
     = [\<lparr>errors = [''Array must contain at least 2 element(s)''], path = []\<rparr>,
        \<lparr>errors = [''Expected string, received number''], path = ''0''\<rparr>]"
  by (simp add: recorded_tags grouped_def first_seen_def entry_for_def)

lemma array_index_0: "is_array_index ''0''"
  by (simp add: is_array_index_def array_index_def is_digit_def decimal_value_def digit_value_def)

lemma array_index_empty: "\<not> is_array_index []"
  by (simp add: is_array_index_def array_index_def)

text \<open>
  For any normalisation that leaves the empty path and the path \<^verbatim>\<open>0\<close> as they are,
  the entry of path \<^verbatim>\<open>0\<close> comes before the entry of the root path, which was recorded
  first.
\<close>

lemma parse_tags_any_normalizer:
  assumes "normalizeFormPath h [] = []" and "normalizeFormPath h ''0'' = ''0''"
  shows "parse (toTypedSchema h tags_zod opts) (JArr [JNum 5])
     = Inr \<lparr>result_value = None,
            result_errors =
              [\<lparr>errors = [''Expected string, received number''], path = ''0''\<rparr>,
               \<lparr>errors = [''Array must contain at least 2 element(s)''], path = []\<rparr>]\<rparr>"
  by (simp add: toTypedSchema_def tags_zod_def tags_issues_def assms Let_def
      digit_char_def string_of_nat.simps push_message_def get_property_def
      Object_prototype_keys_def Object_values_def Object_entries_def
      array_index_0 array_index_empty)

lemma parse_tags:
  "parse (toTypedSchema spec_helpers tags_zod JUndefined) (JArr [JNum 5])
     = Inr \<lparr>result_value = None,
            result_errors =
              [\<lparr>errors = [''Expected string, received number''], path = ''0''\<rparr>,
               \<lparr>errors = [''Array must contain at least 2 element(s)''], path = []\<rparr>]\<rparr>"
  by (rule parse_tags_any_normalizer) (simp_all add: spec_helpers_def)

text \<open>
  A recorded path that names a member of \<^verbatim>\<open>Object.prototype\<close> makes \<^verbatim>\<open>processIssues\<close>
  throw, and \<^verbatim>\<open>parse\<close> reject: here for a field called \<^verbatim>\<open>constructor\<close>.
\<close>

lemma processIssues_inherited_path:
  "nf ''constructor'' = ''constructor'' \<Longrightarrow>
   processIssues nf [Issue ''invalid_type'' [Key ''constructor''] ''Required'' None] []
     = Inl TypeError"
  by (simp add: push_message_def get_property_def Object_prototype_keys_def)

text \<open>
  Claim C1, as stated: the entries of the error list appear in the order in which their
  paths are first seen. For the issues of \<open>tags_issues\<close> the root path is seen first, and
  the entry of path \<^verbatim>\<open>0\<close> is listed first: \<^verbatim>\<open>Object.values\<close> lists array-index keys
  before all other keys.
\<close>

theorem first_seen_order_counterexample:
  "parse (toTypedSchema spec_helpers tags_zod JUndefined) (JArr [JNum 5])
     = Inr \<lparr>result_value = None,
            result_errors =
              [\<lparr>errors = [''Expected string, received number''], path = ''0''\<rparr>,
               \<lparr>errors = [''Array must contain at least 2 element(s)''], path = []\<rparr>]\<rparr> \<and>
   parse (toTypedSchema spec_helpers tags_zod JUndefined) (JArr [JNum 5])
     \<noteq> Inr \<lparr>result_value = None,
            result_errors = grouped (recorded (normalizeFormPath spec_helpers) tags_issues)\<rparr>"
  by (simp add: parse_tags grouped_tags)

text \<open>
  Claim C1, amended. When the asynchronous safe validation fails with an issue list, and
  no recorded path names a member of \<^verbatim>\<open>Object.prototype\<close>, \<^verbatim>\<open>parse\<close> returns a result
  without a value whose error list has one entry for each distinct normalised path, with
  all messages recorded against that path in the order of recording; the entries whose
  path is an array index come first, by ascending index, and the other entries follow in
  the order in which their paths are first seen.
\<close>

theorem parse_failure_errors:
  assumes "safeParseAsync z v opts = Failure issues"
    and "\<forall>r \<in> set (recorded (normalizeFormPath h) issues). fst r \<notin> set Object_prototype_keys"
  shows "parse (toTypedSchema h z opts) v
    = Inr \<lparr>result_value = None,
           result_errors = index_paths_first (grouped (recorded (normalizeFormPath h) issues))\<rparr>"
proof -
  have "processIssues (normalizeFormPath h) issues []
      = Inr (keyed (grouped (recorded (normalizeFormPath h) issues)))"
    using processIssues_grouped [OF assms(2), of "[]"] by (simp add: keyed_Nil)
  with assms(1) show ?thesis
    by (simp add: toTypedSchema_def Object_values_keyed)
qed

theorem parse_failure_errors_witness:
  "safeParseAsync tags_zod (JArr [JNum 5]) JUndefined = Failure tags_issues \<and>
   recorded (normalizeFormPath spec_helpers) tags_issues
     = [([], ''Array must contain at least 2 element(s)''),
        (''0'', ''Expected string, received number'')] \<and>
   [] \<notin> set Object_prototype_keys \<and>
   ''0'' \<notin> set Object_prototype_keys \<and>
   parse (toTypedSchema spec_helpers tags_zod JUndefined) (JArr [JNum 5])
     = Inr \<lparr>result_value = None,
            result_errors =
              [\<lparr>errors = [''Expected string, received number''], path = ''0''\<rparr>,
               \<lparr>errors = [''Array must contain at least 2 element(s)''], path = []\<rparr>]\<rparr>"
proof -
  have f: "safeParseAsync tags_zod (JArr [JNum 5]) JUndefined = Failure tags_issues"
    by (simp add: tags_zod_def)
  have k: "\<forall>r \<in> set (recorded (normalizeFormPath spec_helpers) tags_issues).
      fst r \<notin> set Object_prototype_keys"
    by (simp add: recorded_tags Object_prototype_keys_def)
  have "index_paths_first (grouped (recorded (normalizeFormPath spec_helpers) tags_issues))
     = [\<lparr>errors = [''Expected string, received number''], path = ''0''\<rparr>,
        \<lparr>errors = [''Array must contain at least 2 element(s)''], path = []\<rparr>]"
    by (simp add: grouped_tags index_paths_first_def array_index_0 array_index_empty)
  with f parse_failure_errors [OF f k] show ?thesis
    by (simp add: recorded_tags Object_prototype_keys_def)
qed

section \<open>Union issues\<close>

lemma processIssues_append:
  "processIssues nf (xs @ ys) errs =
     (case processIssues nf xs errs of Inl e \<Rightarrow> Inl e | Inr errs1 \<Rightarrow> processIssues nf ys errs1)"
proof (induction xs arbitrary: errs)
  case Nil
  show ?case by simp
next
  case (Cons x xs)
  obtain code p m u where x: "x = Issue code p m u"
    by (cases x)
  show ?case
    by (simp add: x Cons.IH Let_def split: sum.splits option.splits)
qed

lemma processIssues_leaf:
  "processIssues nf [Issue code p m None] errs =
     (if code = ''invalid_union'' \<and> nf (join_dot (map segment_string p)) = [] then Inr errs
      else push_message (nf (join_dot (map segment_string p))) m errs)"
  by (simp add: Let_def split: sum.splits)

text \<open>
  Claim C2. The claim: a failure that holds a union issue is reported as the flattened
  issues of the branches of the union, and not as one entry for the union.
  \<^verbatim>\<open>processIssues\<close> reads the issues of the branches from the property \<^verbatim>\<open>unionErrors\<close>
  and from nowhere else. For a union issue without that property, as zod 4 reports it,
  nothing is flattened: \<^verbatim>\<open>parse\<close> reports the union's own message as the one entry of
  the union's path, and reports no error at all when that path is empty.
\<close>

theorem union_without_unionErrors:
  assumes "safeParseAsync z v opts = Failure [Issue ''invalid_union'' p m None]"
    and "normalizeFormPath h (join_dot (map segment_string p)) \<notin> set Object_prototype_keys"
  shows "parse (toTypedSchema h z opts) v
    = Inr \<lparr>result_value = None,
           result_errors =
             (if normalizeFormPath h (join_dot (map segment_string p)) = [] then []
              else [\<lparr>errors = [m], path = normalizeFormPath h (join_dot (map segment_string p))\<rparr>])\<rparr>"
  using assms
  by (simp add: toTypedSchema_def Let_def push_message_def get_property_def
      Object_values_def Object_entries_def)

theorem union_without_unionErrors_witness:
  "safeParseAsync member_zod member_invalid JUndefined
     = Failure [Issue ''invalid_union'' [Key ''data''] ''Invalid input'' None] \<and>
   normalizeFormPath spec_helpers (join_dot (map segment_string [Key ''data''])) = ''data'' \<and>
   ''data'' \<notin> set Object_prototype_keys \<and>
   parse (toTypedSchema spec_helpers member_zod JUndefined) member_invalid
     = Inr \<lparr>result_value = None,
            result_errors = [\<lparr>errors = [''Invalid input''], path = ''data''\<rparr>]\<rparr> \<and>
   safeParseAsync choice_zod (JBool True) JUndefined
     = Failure [Issue ''invalid_union'' [] ''Invalid input'' None] \<and>
   normalizeFormPath spec_helpers (join_dot (map segment_string [])) = [] \<and>
   [] \<notin> set Object_prototype_keys \<and>
   parse (toTypedSchema spec_helpers choice_zod JUndefined) (JBool True)
     = Inr \<lparr>result_value = None, result_errors = []\<rparr>"
proof -
  have f: "safeParseAsync member_zod member_invalid JUndefined
      = Failure [Issue ''invalid_union'' [Key ''data''] ''Invalid input'' None]"
    by (simp add: member_zod_def member_issues_def)
  have q: "normalizeFormPath spec_helpers (join_dot (map segment_string [Key ''data''])) = ''data''"
    by (simp add: spec_helpers_def)
  have k: "''data'' \<notin> set Object_prototype_keys"
    by (simp add: Object_prototype_keys_def)
  have g: "safeParseAsync choice_zod (JBool True) JUndefined
      = Failure [Issue ''invalid_union'' [] ''Invalid input'' None]"
    by (simp add: choice_zod_def choice_issues_def)
  have r: "normalizeFormPath spec_helpers (join_dot (map segment_string [])) = []"
    by (simp add: spec_helpers_def)
  have e: "[] \<notin> set Object_prototype_keys"
    by (simp add: Object_prototype_keys_def)
  from union_without_unionErrors [OF f, of spec_helpers] q k
  have 1: "parse (toTypedSchema spec_helpers member_zod JUndefined) member_invalid
      = Inr \<lparr>result_value = None,
             result_errors = [\<lparr>errors = [''Invalid input''], path = ''data''\<rparr>]\<rparr>"
    by simp
  from union_without_unionErrors [OF g, of spec_helpers] r e
  have 2: "parse (toTypedSchema spec_helpers choice_zod JUndefined) (JBool True)
      = Inr \<lparr>result_value = None, result_errors = []\<rparr>"
    by simp
  from f q k 1 g r e 2 show ?thesis
    by (intro conjI)
qed

text \<open>
  Claim C10. A union issue whose normalised path is empty is processed exactly as the
  issues of its branches alone: it adds no entry of its own. A union issue whose
  normalised path is not empty is processed exactly as the issues of its branches
  followed by an ordinary issue with the union's path and message: its own message is
  pushed to the entry of that path after the messages of the branches. What is recorded
  for a union issue is what is recorded for its branches, followed by its own path and
  message when the path is not empty.
\<close>

theorem union_issue_own_entry:
  "(nf (join_dot (map segment_string p)) = [] \<longrightarrow>
      processIssues nf (Issue ''invalid_union'' p m u # rest) errs
        = processIssues nf (branch_issues u @ rest) errs) \<and>
   (nf (join_dot (map segment_string p)) \<noteq> [] \<and> code \<noteq> ''invalid_union'' \<longrightarrow>
      processIssues nf (Issue ''invalid_union'' p m u # rest) errs
        = processIssues nf (branch_issues u @ Issue code p m None # rest) errs) \<and>
   recorded nf (Issue ''invalid_union'' p m u # rest)
     = recorded nf (branch_issues u)
       @ (if nf (join_dot (map segment_string p)) = [] then []
          else [(nf (join_dot (map segment_string p)), m)])
       @ recorded nf rest"
  by (cases u) (simp_all add: branch_issues_def processIssues_append Let_def split: sum.splits)

theorem union_issue_own_entry_witness:
  "spec_normalizeFormPath (join_dot (map segment_string [])) = [] \<and>
   processIssues spec_normalizeFormPath
      [Issue ''invalid_union'' [] ''Invalid input''
         (Some [[Issue ''invalid_type'' [] ''Expected string'' None],
                [Issue ''invalid_type'' [] ''Expected number'' None]])] []
     = Inr [([], \<lparr>errors = [''Expected string'', ''Expected number''], path = []\<rparr>)] \<and>
   spec_normalizeFormPath (join_dot (map segment_string [Key ''data''])) \<noteq> [] \<and>
   ''invalid_type'' \<noteq> ''invalid_union'' \<and>
   processIssues spec_normalizeFormPath
      [Issue ''invalid_union'' [Key ''data''] ''Invalid input''
         (Some [[Issue ''invalid_type'' [Key ''data''] ''Expected string'' None],
                [Issue ''invalid_type'' [Key ''data''] ''Expected number'' None]])] []
     = Inr [(''data'',
             \<lparr>errors = [''Expected string'', ''Expected number'', ''Invalid input''],
                path = ''data''\<rparr>)]"
proof -
  have e: "spec_normalizeFormPath (join_dot (map segment_string [])) = []"
    by simp
  have ne: "spec_normalizeFormPath (join_dot (map segment_string [Key ''data''])) \<noteq> []"
    by simp
  have c: "''invalid_type'' \<noteq> ''invalid_union''"
    by simp
  note root = union_issue_own_entry [of spec_normalizeFormPath "[]" "''Invalid input''"
      "Some [[Issue ''invalid_type'' [] ''Expected string'' None],
             [Issue ''invalid_type'' [] ''Expected number'' None]]" "[]" "[]" "''invalid_type''"]
  note field = union_issue_own_entry [of spec_normalizeFormPath "[Key ''data'']" "''Invalid input''"
      "Some [[Issue ''invalid_type'' [Key ''data''] ''Expected string'' None],
             [Issue ''invalid_type'' [Key ''data''] ''Expected number'' None]]" "[]" "[]"
      "''invalid_type''"]
  from root e have 1: "processIssues spec_normalizeFormPath
      [Issue ''invalid_union'' [] ''Invalid input''
         (Some [[Issue ''invalid_type'' [] ''Expected string'' None],
                [Issue ''invalid_type'' [] ''Expected number'' None]])] []
     = processIssues spec_normalizeFormPath
         [Issue ''invalid_type'' [] ''Expected string'' None,
          Issue ''invalid_type'' [] ''Expected number'' None] []"
    by (simp add: branch_issues_def)
  from field ne c have 2: "processIssues spec_normalizeFormPath
      [Issue ''invalid_union'' [Key ''data''] ''Invalid input''
         (Some [[Issue ''invalid_type'' [Key ''data''] ''Expected string'' None],
                [Issue ''invalid_type'' [Key ''data''] ''Expected number'' None]])] []
     = processIssues spec_normalizeFormPath
         [Issue ''invalid_type'' [Key ''data''] ''Expected string'' None,
          Issue ''invalid_type'' [Key ''data''] ''Expected number'' None,
          Issue ''invalid_type'' [Key ''data''] ''Invalid input'' None] []"
    by (simp add: branch_issues_def)
  show ?thesis
    unfolding 1 2
    by (simp add: Let_def push_message_def get_property_def Object_prototype_keys_def)
qed

section \<open>\<^verbatim>\<open>cast\<close> and the extraction of defaults\<close>

lemma sequence_all_return:
  "\<forall>x \<in> set xs. g x = Inr (g' x) \<Longrightarrow> sequence (map g xs) = Inr (map g' xs)"
  by (induction xs) auto

lemma sequence_returns:
  "\<forall>x \<in> set xs. \<exists>y. g x = Inr y \<Longrightarrow> \<exists>ys. sequence (map g xs) = Inr ys"
proof (induction xs)
  case Nil
  show ?case by simp
next
  case (Cons x xs)
  then obtain y ys where "g x = Inr y" and "sequence (map g xs) = Inr ys"
    by auto
  then show ?case
    by simp
qed

lemma sequence_raises:
  "x \<in> set xs \<Longrightarrow> g x = Inl e \<Longrightarrow> \<exists>e'. sequence (map g xs) = Inl e'"
proof (induction xs)
  case Nil
  then show ?case by simp
next
  case (Cons a xs)
  show ?case
  proof (cases "g a")
    case (Inl e0)
    then show ?thesis by simp
  next
    case (Inr y)
    with Cons.prems have "x \<in> set xs"
      by auto
    from Cons.IH [OF this Cons.prems(2)] Inr show ?thesis
      by auto
  qed
qed

text \<open>A schema that is no instance of \<^verbatim>\<open>ZodObject\<close> has no defaults to extract.\<close>

lemma getDefaults_other: "zod_class s \<noteq> ZodObject \<Longrightarrow> getDefaults s = Inr JUndefined"
  by (cases s) simp

text \<open>The fallback of \<^verbatim>\<open>cast\<close> then returns the provided value untouched.\<close>

lemma cast_other:
  "zod_class (zdef z) \<noteq> ZodObject \<Longrightarrow> parseSync z v = Inl e \<Longrightarrow>
   cast (toTypedSchema h z opts) v = Inr v"
  by (simp add: toTypedSchema_def getDefaults_other)

lemma calls_return_field:
  assumes "calls_return s" and "zod_class s = ZodObject" and "shape s = Some sh"
    and "(k, v) \<in> set sh"
  shows "if zod_class v = ZodDefault then (\<exists>d. defaultValue v = Inr d)
         else if zod_class v = ZodObject then calls_return v else True"
proof -
  let ?ok = "\<lambda>(key, v).
        if zod_class v = ZodDefault then
          (case defaultValue v of Inl e \<Rightarrow> False | Inr d \<Rightarrow> True)
        else if zod_class v = ZodObject then calls_return v
        else True"
  from assms(1-3) have "\<forall>x \<in> set sh. ?ok x"
    by (cases s) (simp add: list_all_iff)
  from this assms(4) have "?ok (k, v)"
    by (rule bspec)
  then show ?thesis
    by (simp split: sum.splits if_splits)
qed

text \<open>When the extraction meets no obstacle, it returns.\<close>

lemma getDefaults_returns: "calls_return s \<Longrightarrow> \<exists>d. getDefaults s = Inr d"
proof (induction s rule: getDefaults.induct)
  case (1 c tn opt sho dt dv)
  show ?case
  proof (cases "c = ZodObject")
    case False
    then show ?thesis
      by simp
  next
    case True
    with "1.prems" obtain sh where sh: "sho = Some sh"
      by (cases sho) simp_all
    let ?s = "Schema c tn opt sho dt dv"
    let ?g = "\<lambda>(key, v).
         if zod_class v = ZodDefault then
           (case defaultValue v of Inl e \<Rightarrow> Inl e | Inr d \<Rightarrow> Inr (key, d))
         else if zod_class v = ZodObject then
           (case getDefaults v of Inl e \<Rightarrow> Inl e | Inr d \<Rightarrow> Inr (key, d))
         else Inr (key, JUndefined)"
    have "\<forall>x \<in> set (Object_entries sh). \<exists>y. ?g x = Inr y"
    proof
      fix x assume x: "x \<in> set (Object_entries sh)"
      obtain key v where kv: "x = (key, v)"
        by (cases x)
      from x have mem: "(key, v) \<in> set sh"
        by (simp add: kv set_Object_entries)
      have ok: "if zod_class v = ZodDefault then (\<exists>d. defaultValue v = Inr d)
         else if zod_class v = ZodObject then calls_return v else True"
        using "1.prems" _ _ mem by (rule calls_return_field) (simp_all add: True sh)
      show "\<exists>y. ?g x = Inr y"
      proof (cases "zod_class v = ZodDefault")
        case True
        with ok show ?thesis
          by (auto simp: kv)
      next
        case notdef: False
        show ?thesis
        proof (cases "zod_class v = ZodObject")
          case False
          with notdef show ?thesis
            by (simp add: kv)
        next
          case obj: True
          with ok notdef have "calls_return v"
            by simp
          moreover from True have "\<not> c \<noteq> ZodObject"
            by simp
          ultimately have "\<exists>d. getDefaults v = Inr d"
            using sh x kv [symmetric] notdef obj by (rule "1.IH" [rotated -1])
          with notdef obj show ?thesis
            by (auto simp: kv)
        qed
      qed
    qed
    then obtain es where "sequence (map ?g (Object_entries sh)) = Inr es"
      using sequence_returns by blast
    with True sh show ?thesis
      by simp
  qed
qed

text \<open>
  What it returns for an instance of \<^verbatim>\<open>ZodObject\<close>: the object built from the entries of
  the shape, each key with the default of its field.
\<close>

lemma getDefaults_object:
  assumes "calls_return s" and "zod_class s = ZodObject" and "shape s = Some sh"
  shows "getDefaults s
    = Inr (JObj (Object_fromEntries (map (\<lambda>(k, v). (k, field_default v)) (Object_entries sh))))"
proof -
  let ?g = "\<lambda>(key, v).
       if zod_class v = ZodDefault then
         (case defaultValue v of Inl e \<Rightarrow> Inl e | Inr d \<Rightarrow> Inr (key, d))
       else if zod_class v = ZodObject then
         (case getDefaults v of Inl e \<Rightarrow> Inl e | Inr d \<Rightarrow> Inr (key, d))
       else Inr (key, JUndefined)"
  let ?g' = "\<lambda>(k, v). (k, field_default v)"
  have "\<forall>x \<in> set (Object_entries sh). ?g x = Inr (?g' x)"
  proof
    fix x assume x: "x \<in> set (Object_entries sh)"
    obtain key v where kv: "x = (key, v)"
      by (cases x)
    from x have mem: "(key, v) \<in> set sh"
      by (simp add: kv set_Object_entries)
    from assms mem
    have ok: "if zod_class v = ZodDefault then (\<exists>d. defaultValue v = Inr d)
         else if zod_class v = ZodObject then calls_return v else True"
      by (rule calls_return_field)
    show "?g x = Inr (?g' x)"
    proof (cases "zod_class v = ZodDefault")
      case True
      with ok show ?thesis
        by (auto simp: kv field_default_def)
    next
      case notdef: False
      show ?thesis
      proof (cases "zod_class v = ZodObject")
        case False
        with notdef show ?thesis
          by (simp add: kv field_default_def)
      next
        case obj: True
        with ok notdef have "calls_return v"
          by simp
        then obtain d where "getDefaults v = Inr d"
          using getDefaults_returns by blast
        with notdef obj show ?thesis
          by (simp add: kv field_default_def)
      qed
    qed
  qed
  then have "sequence (map ?g (Object_entries sh)) = Inr (map ?g' (Object_entries sh))"
    by (rule sequence_all_return)
  with assms(2,3) show ?thesis
    by (cases s) simp
qed

lemma set_property_fresh:
  "k \<notin> fst ` set obj \<Longrightarrow> set_property obj k v = obj @ [(k, v)]"
  by (induction obj) auto

lemma fold_set_property_distinct:
  "distinct (map fst (acc @ es)) \<Longrightarrow>
   foldl (\<lambda>obj e. set_property obj (fst e) (snd e)) acc es = acc @ es"
proof (induction es arbitrary: acc)
  case Nil
  show ?case by simp
next
  case (Cons e es)
  from Cons.prems have fresh: "fst e \<notin> fst ` set acc"
    by auto
  from Cons.prems have "distinct (map fst ((acc @ [e]) @ es))"
    by simp
  from Cons.IH [OF this] fresh show ?case
    by (simp add: set_property_fresh)
qed

lemma Object_fromEntries_distinct:
  "distinct (map fst es) \<Longrightarrow> Object_fromEntries es = es"
  using fold_set_property_distinct [of "[]" es] by (simp add: Object_fromEntries_def)

lemma distinct_map_insort_key:
  "distinct (map g (insort_key f x xs)) = (g x \<notin> g ` set xs \<and> distinct (map g xs))"
  by (induction xs) (auto simp: set_insort_key)

lemma distinct_map_sort_key:
  "distinct (map g (sort_key f xs)) = distinct (map g xs)"
  by (induction xs) (simp_all add: distinct_map_insort_key)

lemma distinct_Object_entries:
  assumes "distinct (map fst obj)"
  shows "distinct (map fst (Object_entries obj))"
proof -
  have "distinct (map fst (filter (\<lambda>p. is_array_index (fst p)) obj))"
    and "distinct (map fst (filter (\<lambda>p. \<not> is_array_index (fst p)) obj))"
    using assms by (simp_all add: distinct_map_filter)
  then show ?thesis
    by (auto simp: Object_entries_def distinct_map_sort_key)
qed

lemma map_of_Object_entries:
  "distinct (map fst obj) \<Longrightarrow> (k, v) \<in> set obj \<Longrightarrow> map_of (Object_entries obj) k = Some v"
  by (rule map_of_is_SomeI) (simp_all add: distinct_Object_entries set_Object_entries)

lemma map_of_map_field:
  "map_of (map (\<lambda>(k, v). (k, f v)) es) k = map_option f (map_of es k)"
  by (induction es) auto

lemma map_fst_map_field: "map fst (map (\<lambda>(k, v). (k, f v)) es) = map fst es"
  by (induction es) auto

text \<open>
  When the extraction meets no obstacle, it does what the spec says of it: the result of
  an object whose field names are distinct has the keys of the shape, in enumeration
  order, and holds under each key the default of that field.
\<close>

lemma getDefaults_lookup:
  assumes "calls_return s" and "zod_class s = ZodObject" and "shape s = Some sh"
    and "distinct (map fst sh)"
  shows "\<exists>d. getDefaults s = Inr (JObj d)
      \<and> map fst d = map fst (Object_entries sh)
      \<and> (\<forall>k f. (k, f) \<in> set sh \<longrightarrow> map_of d k = Some (field_default f))"
proof -
  let ?d = "map (\<lambda>(k, v). (k, field_default v)) (Object_entries sh)"
  have keys: "map fst ?d = map fst (Object_entries sh)"
    by (rule map_fst_map_field)
  have "distinct (map fst ?d)"
    unfolding keys using assms(4) by (rule distinct_Object_entries)
  then have "Object_fromEntries ?d = ?d"
    by (rule Object_fromEntries_distinct)
  with getDefaults_object [OF assms(1-3)] have "getDefaults s = Inr (JObj ?d)"
    by (simp only:)
  moreover have "\<forall>k f. (k, f) \<in> set sh \<longrightarrow> map_of ?d k = Some (field_default f)"
    using assms(4) by (simp add: map_of_map_field map_of_Object_entries)
  ultimately show ?thesis
    using keys by blast
qed

lemma plain_keys:
  "\<not> is_array_index ''name''" "\<not> is_array_index ''role''" "\<not> is_array_index ''address''"
  "\<not> is_array_index ''city''" "\<not> is_array_index ''zip''" "\<not> is_array_index ''id''"
  "\<not> is_array_index ''seats''"
  by (simp_all add: is_array_index_def array_index_def is_digit_def)

text \<open>
  On the schema built by zod 3 the call \<^verbatim>\<open>_def.defaultValue()\<close> of the field \<^verbatim>\<open>role\<close>
  returns \<^verbatim>\<open>'user'\<close>, and the extraction returns \<^verbatim>\<open>{ name: undefined, role: 'user' }\<close>.
\<close>

lemma getDefaults_profile3:
  "getDefaults (zod3_object False profile3_fields)
     = Inr (JObj [(''name'', JUndefined), (''role'', JStr ''user'')])"
  by (simp add: zod3_object_def profile3_fields_def zod3_schema_def zod3_default_def
      Object_entries_def Object_fromEntries_def plain_keys)

text \<open>
  Claim C9. The claim: for a field with a declared default, the default-value provider
  is invoked and its result used. The code calls \<^verbatim>\<open>_def.defaultValue()\<close> on every field
  that is an instance of \<^verbatim>\<open>ZodDefault\<close>, and whenever one of these calls raises, the whole
  extraction raises and yields no defaults at all. On a schema built by zod 4 the call
  raises a \<^verbatim>\<open>TypeError\<close> for every default that is not itself a function, because
  \<^verbatim>\<open>_def.defaultValue\<close> is the default value and not a function that provides it.
\<close>

theorem getDefaults_raising_call:
  assumes "zod_class s = ZodObject" and "shape s = Some sh" and "(k, f) \<in> set sh"
    and "zod_class f = ZodDefault" and "defaultValue f = Inl e"
  shows "\<exists>e'. getDefaults s = Inl e'"
proof -
  let ?g = "\<lambda>(key, v).
       if zod_class v = ZodDefault then
         (case defaultValue v of Inl e \<Rightarrow> Inl e | Inr d \<Rightarrow> Inr (key, d))
       else if zod_class v = ZodObject then
         (case getDefaults v of Inl e \<Rightarrow> Inl e | Inr d \<Rightarrow> Inr (key, d))
       else Inr (key, JUndefined)"
  from assms(3) have mem: "(k, f) \<in> set (Object_entries sh)"
    by (simp add: set_Object_entries)
  from assms(4,5) have call: "?g (k, f) = Inl e"
    by simp
  from sequence_raises [of "(k, f)" "Object_entries sh" ?g e, OF mem call]
  obtain e' where e': "sequence (map ?g (Object_entries sh)) = Inl e'" ..
  from assms(1,2) have "getDefaults s
      = (case sequence (map ?g (Object_entries sh)) of
           Inl e \<Rightarrow> Inl e
         | Inr es \<Rightarrow> Inr (JObj (Object_fromEntries es)))"
    by (cases s) simp
  with e' have "getDefaults s = Inl e'"
    by (simp only: sum.case)
  then show ?thesis ..
qed

theorem getDefaults_raising_call_witness:
  "zod_class (zdef profile_zod) = ZodObject \<and>
   shape (zdef profile_zod) = Some profile_fields \<and>
   (''role'', zod4_default) \<in> set profile_fields \<and>
   zod_class zod4_default = ZodDefault \<and>
   defaultValue zod4_default = Inl TypeError \<and>
   (\<exists>e'. getDefaults (zdef profile_zod) = Inl e') \<and>
   getDefaults (zdef profile_zod) = Inl TypeError \<and>
   cast (toTypedSchema spec_helpers profile_zod JUndefined) (JObj []) = Inl TypeError"
proof -
  have c: "zod_class (zdef profile_zod) = ZodObject"
    by (simp add: profile_zod_def zod4_object_def)
  have s: "shape (zdef profile_zod) = Some profile_fields"
    by (simp add: profile_zod_def zod4_object_def)
  have m: "(''role'', zod4_default) \<in> set profile_fields"
    by (simp add: profile_fields_def)
  have d: "zod_class zod4_default = ZodDefault"
    by (simp add: zod4_default_def)
  have v: "defaultValue zod4_default = Inl TypeError"
    by (simp add: zod4_default_def)
  have x: "getDefaults (zdef profile_zod) = Inl TypeError"
    by (simp add: profile_zod_def zod4_object_def profile_fields_def zod4_schema_def
        zod4_default_def Object_entries_def plain_keys)
  have y: "cast (toTypedSchema spec_helpers profile_zod JUndefined) (JObj []) = Inl TypeError"
    using x by (simp add: toTypedSchema_def) (simp add: profile_zod_def)
  from getDefaults_raising_call [OF c s m d v] c s m d v x y show ?thesis
    by (intro conjI)
qed

text \<open>
  With the merge of the spec, a provided field wins over the default of the same name,
  and every other default is kept.
\<close>

lemma map_of_set_property:
  "map_of (set_property obj k v) k' = (if k' = k then Some v else map_of obj k')"
  by (induction obj) auto

lemma map_of_fold_set_property:
  "map_of (foldl (\<lambda>obj e. set_property obj (fst e) (snd e)) obj es) k
     = (case map_of (rev es) k of Some v \<Rightarrow> Some v | None \<Rightarrow> map_of obj k)"
proof (induction es arbitrary: obj)
  case Nil
  show ?case by simp
next
  case (Cons e es)
  show ?case
    by (simp add: Cons.IH map_of_set_property map_add_def split: option.splits)
qed

lemma spec_merge_provided_wins:
  "spec_merge (JObj target) (JObj source) = JObj merged \<Longrightarrow>
   map_of merged k = (case map_of (rev source) k of Some v \<Rightarrow> Some v | None \<Rightarrow> map_of target k)"
  by (auto simp: map_of_fold_set_property)

text \<open>
  Claim C5, as stated: \<^verbatim>\<open>cast\<close> never raises. The fallback makes the calls
  \<^verbatim>\<open>_def.defaultValue()\<close> outside any \<^verbatim>\<open>try\<close>; when the strict parse throws and such a call
  raises, here because the function that computes the default throws, \<^verbatim>\<open>cast\<close> raises
  that exception.
\<close>

theorem cast_fallback_raises_counterexample:
  "parseSync ticket_zod (JObj [(''id'', JStr ''A1''), (''seats'', JStr ''two'')]) = Inl ZodError \<and>
   cast (toTypedSchema spec_helpers ticket_zod JUndefined)
      (JObj [(''id'', JStr ''A1''), (''seats'', JStr ''two'')])
     = Inl (Thrown ''no id'')"
  by (simp add: toTypedSchema_def ticket_zod_def zod4_object_def zod4_schema_def
      Object_entries_def plain_keys)

text \<open>
  Claim C5, amended. When the strict parse returns, \<^verbatim>\<open>cast\<close> returns its result. When it
  throws and the extraction of the defaults returns, \<^verbatim>\<open>cast\<close> returns the defaults merged
  with the provided value if both are plain mappings, and the provided value unchanged
  otherwise. When it throws and the extraction raises, \<^verbatim>\<open>cast\<close> raises the same
  exception, and \<^verbatim>\<open>cast\<close> raises in no other case. The extraction raises only when a call
  \<^verbatim>\<open>_def.defaultValue()\<close> that it makes raises, or an instance of \<^verbatim>\<open>ZodObject\<close> that it
  visits has no shape: when it meets no such obstacle, \<^verbatim>\<open>cast\<close> returns for every input.
\<close>

theorem cast_fallback:
  "(parseSync z v = Inr r \<longrightarrow> cast (toTypedSchema h z opts) v = Inr r) \<and>
   (parseSync z v = Inl e \<and> getDefaults (zdef z) = Inr d \<longrightarrow>
      cast (toTypedSchema h z opts) v
        = Inr (if isObject d \<and> isObject v then merge h d v else v)) \<and>
   (parseSync z v = Inl e \<and> getDefaults (zdef z) = Inl e' \<longrightarrow>
      cast (toTypedSchema h z opts) v = Inl e') \<and>
   (cast (toTypedSchema h z opts) v = Inl x \<longrightarrow>
      (\<exists>e. parseSync z v = Inl e) \<and> getDefaults (zdef z) = Inl x \<and> \<not> calls_return (zdef z)) \<and>
   (calls_return (zdef z) \<longrightarrow> (\<exists>r. cast (toTypedSchema h z opts) v = Inr r))"
proof (intro conjI impI)
  assume "calls_return (zdef z)"
  then obtain d where "getDefaults (zdef z) = Inr d"
    using getDefaults_returns by blast
  then show "\<exists>r. cast (toTypedSchema h z opts) v = Inr r"
    by (cases "parseSync z v") (simp_all add: toTypedSchema_def)
next
  assume raised: "cast (toTypedSchema h z opts) v = Inl x"
  then show "\<exists>e. parseSync z v = Inl e"
    by (cases "parseSync z v") (simp_all add: toTypedSchema_def)
  from raised show thrown: "getDefaults (zdef z) = Inl x"
    by (cases "parseSync z v"; cases "getDefaults (zdef z)")
      (simp_all add: toTypedSchema_def split: if_splits)
  then show "\<not> calls_return (zdef z)"
    using getDefaults_returns [of "zdef z"] by auto
qed (simp_all add: toTypedSchema_def)

lemma getDefaults_contact:
  "getDefaults (zdef contact_zod)
     = Inr (JObj [(''name'', JUndefined),
                  (''address'', JObj [(''city'', JUndefined), (''zip'', JUndefined)])])"
  by (simp add: contact_zod_def contact_fields_def address_fields_def zod4_object_def
      zod4_schema_def Object_entries_def Object_fromEntries_def plain_keys)

lemma calls_return_contact: "calls_return (zdef contact_zod)"
  by (simp add: contact_zod_def contact_fields_def address_fields_def zod4_object_def
      zod4_schema_def)

lemma getDefaults_ticket: "getDefaults (zdef ticket_zod) = Inl (Thrown ''no id'')"
  by (simp add: ticket_zod_def zod4_object_def zod4_schema_def Object_entries_def plain_keys)

theorem cast_fallback_witness:
  "parseSync signup_zod signup_valid = Inr signup_valid \<and>
   cast (toTypedSchema spec_helpers signup_zod JUndefined) signup_valid = Inr signup_valid \<and>
   parseSync contact_zod (JObj [(''name'', JStr ''Ann'')]) = Inl ZodError \<and>
   getDefaults (zdef contact_zod)
     = Inr (JObj [(''name'', JUndefined),
                  (''address'', JObj [(''city'', JUndefined), (''zip'', JUndefined)])]) \<and>
   cast (toTypedSchema spec_helpers contact_zod JUndefined) (JObj [(''name'', JStr ''Ann'')])
     = Inr (JObj [(''name'', JStr ''Ann''),
                  (''address'', JObj [(''city'', JUndefined), (''zip'', JUndefined)])]) \<and>
   cast (toTypedSchema spec_helpers contact_zod JUndefined) (JStr ''Ann'') = Inr (JStr ''Ann'') \<and>
   parseSync ticket_zod (JObj [(''id'', JStr ''A1'')]) = Inl ZodError \<and>
   getDefaults (zdef ticket_zod) = Inl (Thrown ''no id'') \<and>
   cast (toTypedSchema spec_helpers ticket_zod JUndefined) (JObj [(''id'', JStr ''A1'')])
     = Inl (Thrown ''no id'') \<and>
   \<not> calls_return (zdef ticket_zod) \<and>
   calls_return (zdef contact_zod) \<and>
   (\<exists>r. cast (toTypedSchema spec_helpers contact_zod JUndefined) JNull = Inr r)"
proof -
  let ?t = "JObj [(''id'', JStr ''A1'')]"
  have p1: "parseSync signup_zod signup_valid = Inr signup_valid"
    by (simp add: signup_zod_def signup_valid_def signup_invalid_def)
  have p2: "parseSync contact_zod v = Inl ZodError" for v
    by (simp add: contact_zod_def)
  have p3: "parseSync ticket_zod ?t = Inl ZodError"
    by (simp add: ticket_zod_def)
  note d2 = getDefaults_contact
  note d3 = getDefaults_ticket
  note pr = calls_return_contact
  from cast_fallback [of signup_zod signup_valid signup_valid spec_helpers JUndefined] p1
  have 1: "cast (toTypedSchema spec_helpers signup_zod JUndefined) signup_valid = Inr signup_valid"
    by blast
  from cast_fallback [of contact_zod "JObj [(''name'', JStr ''Ann'')]" _ spec_helpers JUndefined
      ZodError] p2 d2
  have 2: "cast (toTypedSchema spec_helpers contact_zod JUndefined) (JObj [(''name'', JStr ''Ann'')])
     = Inr (JObj [(''name'', JStr ''Ann''),
                  (''address'', JObj [(''city'', JUndefined), (''zip'', JUndefined)])])"
    by (simp add: spec_helpers_def)
  from cast_fallback [of contact_zod "JStr ''Ann''" _ spec_helpers JUndefined ZodError] p2 d2
  have 3: "cast (toTypedSchema spec_helpers contact_zod JUndefined) (JStr ''Ann'') = Inr (JStr ''Ann'')"
    by simp
  from cast_fallback [of ticket_zod ?t _ spec_helpers JUndefined ZodError _ "Thrown ''no id''"]
    p3 d3
  have 4: "cast (toTypedSchema spec_helpers ticket_zod JUndefined) ?t = Inl (Thrown ''no id'')"
    by blast
  from cast_fallback [of ticket_zod ?t _ spec_helpers JUndefined _ _ _ "Thrown ''no id''"] 4
  have 5: "\<not> calls_return (zdef ticket_zod)"
    by blast
  from cast_fallback [of contact_zod JNull _ spec_helpers JUndefined] pr
  have 6: "\<exists>r. cast (toTypedSchema spec_helpers contact_zod JUndefined) JNull = Inr r"
    by blast
  from p1 1 p2 d2 2 3 p3 d3 4 5 pr 6 show ?thesis
    by blast
qed

end
